theory Spec2Isabelle
  imports Complex_Main "HOL-Library.Multiset"
begin

section \<open>Data model of the front end (src/types/index.ts)\<close>

text \<open>
  JavaScript numbers that the code only ever uses as whole numbers (progress percentages,
  tick counts, clip counts, slider values, millisecond timestamps) are modelled as
  \<open>int\<close>; none of them gets near \<open>2 ^ 53\<close>. Seconds and scores inside clip records
  are exact rationals.
\<close>

datatype Duration = Auto | Seconds int

record ClipSettings =
  duration :: Duration
  aspectRatio :: string
  numberOfClips :: int
  generateSubtitles :: bool
  template :: string
  detectionMethod :: string

record GeneratedClip =
  clip_id :: string
  title :: string
  thumbnail :: string
  clip_duration :: string
  clip_aspectRatio :: string
  clip_template :: string
  hasSubtitles :: bool
  video_url :: string
  downloadUrl :: string
  clip_createdAt :: string
  clip_detectionMethod :: "string option"
  viralReason :: "string option"
  viralScore :: "rat option"
  startTime :: "rat option"
  endTime :: "rat option"

datatype SourceType = youtube | twitch | upload

datatype HistoryStatus = completed | processing_st | failed

text \<open>
  \<open>deletedAt\<close> is an ISO timestamp string in the source, written by
  \<open>new Date().toISOString()\<close> and read back by \<open>new Date(deletedAt).getTime()\<close>; the
  model keeps the millisecond value that both denote.
\<close>

record HistoryItem =
  item_id :: string
  sourceType :: SourceType
  sourceName :: string
  sourceThumbnail :: string
  clips :: "GeneratedClip list"
  settings :: ClipSettings
  createdAt :: string
  status :: HistoryStatus
  deletedAt :: "int option"
  trashedAt :: "string option"


section \<open>History page (src/pages/History.tsx)\<close>

subsection \<open>daysUntilPurge\<close>

definition day_ms :: int where
  "day_ms = 24 * 60 * 60 * 1000"

text \<open>
  \<open>Math.max(0, Math.ceil((purgeTime - Date.now()) / (24 * 60 * 60 * 1000)))\<close> with
  \<open>purgeTime = new Date(deletedAt).getTime() + 10 * 24 * 60 * 60 * 1000\<close>.
  The current time \<open>Date.now()\<close> is the second argument. Both times are whole
  milliseconds, and the quotient is taken exactly: for differences below \<open>10 ^ 15\<close> ms
  the rounding of the double division does not change the ceiling.
\<close>

definition daysUntilPurge :: "int \<Rightarrow> int \<Rightarrow> int" where
  "daysUntilPurge deletedAt_ms now =
     (let purgeTime = deletedAt_ms + 10 * 24 * 60 * 60 * 1000
      in max 0 \<lceil>(of_int (purgeTime - now) :: rat) / of_int (24 * 60 * 60 * 1000)\<rceil>)"

subsection \<open>Soft delete and restore\<close>

text \<open>The page state that the two handlers touch: \<open>activeItems\<close> and \<open>trashItems\<close>.\<close>

record HistoryLists =
  activeItems :: "HistoryItem list"
  trashItems :: "HistoryItem list"

text \<open>
  \<open>handleSoftDelete\<close>: what \<open>doIt\<close> does once the dialog is confirmed and the awaited
  token and backend call are over (their outcome is ignored, the update is optimistic).
  \<open>activeItems.find\<close> reads the list of the render in which the handler was created,
  the closure, given here as an argument of its own; the updaters passed to
  \<open>setActiveItems\<close> and \<open>setTrashItems\<close> work on the lists that are current when
  they run. \<open>find\<close> takes the first item with the id, \<open>filter\<close> drops every item
  with the id, and the trashed copy goes to the front of the trash. The first argument is
  the time that \<open>new Date()\<close> reads.
\<close>

definition handleSoftDelete ::
  "int \<Rightarrow> string \<Rightarrow> HistoryItem list \<Rightarrow> HistoryLists \<Rightarrow> HistoryLists" where
  "handleSoftDelete now i closure_activeItems st =
     (case find (\<lambda>x. item_id x = i) closure_activeItems of
        None \<Rightarrow> st
      | Some item \<Rightarrow>
          let trashed = item\<lparr>deletedAt := Some now\<rparr>
          in st\<lparr>activeItems := filter (\<lambda>x. item_id x \<noteq> i) (activeItems st),
                trashItems := trashed # trashItems st\<rparr>)"

text \<open>
  \<open>handleRestore\<close> after its awaited token and backend call (outcome ignored):
  \<open>trashItems.find\<close> reads the closure, the two updaters the current lists. The call
  of \<open>_syncLocalStorage\<close> that follows does not touch the two lists.
\<close>

definition handleRestore :: "string \<Rightarrow> HistoryItem list \<Rightarrow> HistoryLists \<Rightarrow> HistoryLists" where
  "handleRestore i closure_trashItems st =
     (case find (\<lambda>x. item_id x = i) closure_trashItems of
        None \<Rightarrow> st
      | Some item \<Rightarrow>
          let restored = item\<lparr>deletedAt := None\<rparr>
          in st\<lparr>trashItems := filter (\<lambda>x. item_id x \<noteq> i) (trashItems st),
                activeItems := restored # activeItems st\<rparr>)"

text \<open>
  A call of one of the two handlers that is suspended at its awaits: the id it was given
  and the list its closure holds.
\<close>

datatype PendingCall =
    PendingSoftDelete string "HistoryItem list"
  | PendingRestore string "HistoryItem list"

text \<open>The two lists of the page and the handler calls that have not resumed yet.\<close>

record HistoryPage =
  page_lists :: HistoryLists
  pending :: "PendingCall list"

text \<open>
  What happens on the page: the trash button of an item is clicked (and the dialog then
  confirmed), the restore button of an item is clicked, or the awaits of the pending call
  at the given position are over at the given time.
\<close>

datatype HistoryEvent =
    SoftDeleteClicked string
  | RestoreClicked string
  | CallResumed nat int

text \<open>
  A click creates the call with the lists of the current render as its closure; a
  resumption runs the rest of the handler on the lists as they are by then.
\<close>

fun history_step :: "HistoryPage \<Rightarrow> HistoryEvent \<Rightarrow> HistoryPage" where
  "history_step p (SoftDeleteClicked i) =
     p\<lparr>pending := pending p @ [PendingSoftDelete i (activeItems (page_lists p))]\<rparr>"
| "history_step p (RestoreClicked i) =
     p\<lparr>pending := pending p @ [PendingRestore i (trashItems (page_lists p))]\<rparr>"
| "history_step p (CallResumed k now) =
     (if k < length (pending p)
      then p\<lparr>page_lists :=
               (case pending p ! k of
                  PendingSoftDelete i c \<Rightarrow> handleSoftDelete now i c (page_lists p)
                | PendingRestore i c \<Rightarrow> handleRestore i c (page_lists p)),
             pending := take k (pending p) @ drop (Suc k) (pending p)\<rparr>
      else p)"

definition history_run :: "HistoryLists \<Rightarrow> HistoryEvent list \<Rightarrow> HistoryPage" where
  "history_run st evs = foldl history_step \<lparr>page_lists = st, pending = []\<rparr> evs"

text \<open>The ids held by the page, active list first.\<close>

definition all_ids :: "HistoryLists \<Rightarrow> string list" where
  "all_ids st = map item_id (activeItems st @ trashItems st)"


section \<open>Dashboard page (the component in src/types/index.ts)\<close>

datatype SourceTab = tab_youtube | tab_twitch | tab_upload

definition ASPECT_RATIOS :: "string list" where
  "ASPECT_RATIOS = [''9:16'', ''1:1'', ''4:5'', ''16:9'']"

definition TEMPLATES :: "string list" where
  "TEMPLATES = [''minimal'', ''gaming'', ''podcast'', ''cinematic'', ''social'', ''news'']"

text \<open>The values of the duration buttons and of the clip-count buttons, as rendered.\<close>

definition DURATION_BUTTONS :: "Duration list" where
  "DURATION_BUTTONS = [Auto, Seconds 15, Seconds 30, Seconds 45, Seconds 60]"

definition CLIP_COUNT_BUTTONS :: "int list" where
  "CLIP_COUNT_BUTTONS = [1, 2, 3, 5, 10]"

text \<open>The stage captions (the trailing ellipsis character of the source is left out).\<close>

definition PROCESSING_STAGES :: "string list" where
  "PROCESSING_STAGES =
     [''Downloading video'', ''Extracting audio'', ''Transcribing speech (Whisper)'',
      ''Analysing transcript with AI'', ''Detecting viral moments'',
      ''Ranking by engagement potential'', ''Extracting selected clips'',
      ''Applying aspect ratio (letterbox)'', ''Burning subtitles'', ''Uploading to cloud'',
      ''Finalising clips'']"

definition UPLOAD_STAGES :: "string list" where
  "UPLOAD_STAGES =
     [''Reading video file'', ''Uploading to server'', ''Transcribing speech (Whisper)'',
      ''Analysing transcript with AI'', ''Detecting viral moments'',
      ''Ranking by engagement potential'', ''Extracting selected clips'',
      ''Applying aspect ratio (letterbox)'', ''Burning subtitles'', ''Uploading to cloud'',
      ''Finalising clips'']"

datatype Alert = TimedOut | GenerateFailed "string option"

text \<open>
  What the awaited \<open>fetch\<close> resolves to: a response that is not \<open>ok\<close> (with the
  \<open>detail\<close> of its body, if any), or the parsed JSON body with its \<open>status\<close> and
  \<open>clips\<close>.
\<close>

datatype Response = NotOk int "string option" | Body string "GeneratedClip list"

text \<open>
  The request as \<open>handleGenerate\<close> builds it: the endpoint is chosen by the source tab,
  the payload is the URL or file with \<open>clipSettings\<close>.
\<close>

record GenerationRequest =
  req_kind :: SourceTab
  req_source :: string
  req_settings :: ClipSettings

text \<open>
  The component state (\<open>useState\<close> cells) together with the locals of the one
  \<open>handleGenerate\<close> call that may be in flight: \<open>tickCount\<close>, whether
  \<open>stageInterval\<close> and \<open>timeoutId\<close> are still armed, the stage list chosen, and the
  alerts shown so far.
\<close>

record Dashboard =
  sourceTab :: SourceTab
  youtubeUrl :: string
  twitchUrl :: string
  uploadedFile :: "string option"
  dash_settings :: ClipSettings
  customDuration :: int
  processing :: bool
  progress :: int
  progressStage :: string
  dash_clips :: "GeneratedClip list"
  tickCount :: int
  stageInterval :: bool
  timeoutId :: bool
  stages :: "string list"
  sent :: "GenerationRequest option"
  alerts :: "Alert list"

definition initial_dashboard :: Dashboard where
  "initial_dashboard =
     \<lparr>sourceTab = tab_youtube, youtubeUrl = [], twitchUrl = [], uploadedFile = None,
      dash_settings = \<lparr>duration = Auto, aspectRatio = ''9:16'', numberOfClips = 3,
                       generateSubtitles = True, template = ''minimal'',
                       detectionMethod = ''ai''\<rparr>,
      customDuration = 30, processing = False, progress = 0, progressStage = [],
      dash_clips = [], tickCount = 0, stageInterval = False, timeoutId = False,
      stages = PROCESSING_STAGES, sent = None, alerts = []\<rparr>"

text \<open>\<open>String.prototype.trim\<close> on the ASCII blanks, as far as emptiness is concerned.\<close>

definition blank :: "string \<Rightarrow> bool" where
  "blank s = list_all (\<lambda>c. c \<in> set [CHR '' '', CHR 0x09, CHR 0x0A, CHR 0x0D]) s"

definition isReady :: "Dashboard \<Rightarrow> bool" where
  "isReady d =
     ((sourceTab d = tab_youtube \<and> \<not> blank (youtubeUrl d)) \<or>
      (sourceTab d = tab_twitch \<and> \<not> blank (twitchUrl d)) \<or>
      (sourceTab d = tab_upload \<and> uploadedFile d \<noteq> None))"

text \<open>The \<open>clipSettings\<close> object of \<open>handleGenerate\<close>.\<close>

definition clipSettings :: "Dashboard \<Rightarrow> ClipSettings" where
  "clipSettings d =
     \<lparr>duration = (if duration (dash_settings d) = Auto then Auto
                  else Seconds (customDuration d)),
      aspectRatio = aspectRatio (dash_settings d),
      numberOfClips = numberOfClips (dash_settings d),
      generateSubtitles = generateSubtitles (dash_settings d),
      template = template (dash_settings d),
      detectionMethod = ''ai''\<rparr>"

definition build_request :: "Dashboard \<Rightarrow> GenerationRequest" where
  "build_request d =
     \<lparr>req_kind = sourceTab d,
      req_source = (case sourceTab d of
                      tab_youtube \<Rightarrow> youtubeUrl d
                    | tab_twitch \<Rightarrow> twitchUrl d
                    | tab_upload \<Rightarrow> (case uploadedFile d of Some f \<Rightarrow> f | None \<Rightarrow> [])),
      req_settings = clipSettings d\<rparr>"

text \<open>
  The value returned by the updater that the interval callback passes to
  \<open>setProgress\<close>; \<open>tickCount\<close> has already been incremented when it runs.
\<close>

definition progress_next :: "int \<Rightarrow> int \<Rightarrow> int" where
  "progress_next tc prev =
     (if prev \<ge> 97 then 97
      else if prev \<ge> 85 \<and> tc mod 8 \<noteq> 0 then prev
      else min (prev + 1) 97)"

text \<open>
  \<open>Math.min(Math.floor((next / 100) * stages.length), stages.length - 1)\<close>; on the
  whole numbers \<open>0..97\<close> and eleven stages the floating-point product has the floor of
  the exact quotient.
\<close>

definition stage_index :: "int \<Rightarrow> string list \<Rightarrow> nat" where
  "stage_index next sts =
     nat (min ((next * int (length sts)) div 100) (int (length sts) - 1))"

text \<open>
  One firing of the interval: \<open>tickCount++\<close>, then the updater, which also sets the
  stage caption on the branch that advances the percentage.
\<close>

definition interval_tick :: "Dashboard \<Rightarrow> Dashboard" where
  "interval_tick d =
     (let tc = tickCount d + 1;
          prev = progress d
      in if prev \<ge> 97 then d\<lparr>tickCount := tc, progress := 97\<rparr>
         else if prev \<ge> 85 \<and> tc mod 8 \<noteq> 0 then d\<lparr>tickCount := tc, progress := prev\<rparr>
         else let next = min (prev + 1) 97;
                  idx = stage_index next (stages d)
              in d\<lparr>tickCount := tc, progress := next, progressStage := stages d ! idx\<rparr>)"

text \<open>The synchronous part of \<open>handleGenerate\<close>, up to the first \<open>await\<close>.\<close>

definition handleGenerate :: "Dashboard \<Rightarrow> Dashboard" where
  "handleGenerate d =
     (if \<not> isReady d then d
      else d\<lparr>processing := True, progress := 0, dash_clips := [],
              stages := (if sourceTab d = tab_upload then UPLOAD_STAGES else PROCESSING_STAGES),
              tickCount := 0, stageInterval := True, timeoutId := True,
              sent := Some (build_request d)\<rparr>)"

text \<open>The \<open>catch\<close> and \<open>finally\<close> blocks.\<close>

definition on_error :: "Alert \<Rightarrow> Dashboard \<Rightarrow> Dashboard" where
  "on_error a d =
     d\<lparr>stageInterval := False, timeoutId := False, alerts := alerts d @ [a],
       processing := False\<rparr>"

text \<open>The code after the awaited \<open>fetch\<close> has resolved.\<close>

definition on_response :: "Response \<Rightarrow> Dashboard \<Rightarrow> Dashboard" where
  "on_response r d =
     (case r of
        NotOk code detail \<Rightarrow> on_error (GenerateFailed detail) d
      | Body st cl \<Rightarrow>
          (if st = ''completed''
           then d\<lparr>stageInterval := False, timeoutId := False, progress := 100,
                   progressStage := ''Done!'', dash_clips := cl, processing := False\<rparr>
           else d\<lparr>stageInterval := False, timeoutId := False, processing := False\<rparr>))"

definition handleReset :: "Dashboard \<Rightarrow> Dashboard" where
  "handleReset d =
     d\<lparr>dash_clips := [], youtubeUrl := [], twitchUrl := [], uploadedFile := None,
       progress := 0\<rparr>"

text \<open>
  Everything that can happen to the component: the user's actions on the form, and, while
  a \<open>handleGenerate\<close> call is in flight, the interval firing, the 15-minute timer
  firing, and the awaited calls resolving or rejecting.
\<close>

datatype Event =
    SourceTabClick SourceTab
  | YoutubeUrlInput string
  | TwitchUrlInput string
  | FileChosen string
  | FileRemoved
  | DurationButton Duration
  | DurationSlider int
  | AspectButton string
  | ClipsButton int
  | SubtitleToggle
  | TemplateButton string
  | GenerateClick
  | ResetClick
  | IntervalFired
  | TimeoutFired
  | FetchResolved Response
  | FetchRejected "string option"

text \<open>The main form is rendered only when there are no clips and nothing is processing.\<close>

definition form_shown :: "Dashboard \<Rightarrow> bool" where
  "form_shown d = (dash_clips d = [] \<and> \<not> processing d)"

text \<open>
  The values a control can report: a button reports the value it was rendered from, the
  range input (\<open>min={5} max={120}\<close>) a whole number within its bounds.
\<close>

fun offered :: "Event \<Rightarrow> bool" where
  "offered (DurationButton b) = (b \<in> set DURATION_BUTTONS)"
| "offered (DurationSlider v) = (5 \<le> v \<and> v \<le> 120)"
| "offered (AspectButton a) = (a \<in> set ASPECT_RATIOS)"
| "offered (ClipsButton n) = (n \<in> set CLIP_COUNT_BUTTONS)"
| "offered (TemplateButton t) = (t \<in> set TEMPLATES)"
| "offered _ = True"

fun form_event :: "Event \<Rightarrow> Dashboard \<Rightarrow> Dashboard" where
  "form_event (SourceTabClick t) d = d\<lparr>sourceTab := t\<rparr>"
| "form_event (YoutubeUrlInput u) d = d\<lparr>youtubeUrl := u\<rparr>"
| "form_event (TwitchUrlInput u) d = d\<lparr>twitchUrl := u\<rparr>"
| "form_event (FileChosen f) d = d\<lparr>uploadedFile := Some f\<rparr>"
| "form_event FileRemoved d = d\<lparr>uploadedFile := None\<rparr>"
| "form_event (DurationButton b) d =
     (case b of
        Auto \<Rightarrow> d\<lparr>dash_settings := (dash_settings d)\<lparr>duration := Auto\<rparr>\<rparr>
      | Seconds n \<Rightarrow> d\<lparr>dash_settings := (dash_settings d)\<lparr>duration := Seconds n\<rparr>,
                       customDuration := n\<rparr>)"
| "form_event (DurationSlider v) d =
     (if duration (dash_settings d) = Auto then d
      else d\<lparr>customDuration := v,
              dash_settings := (dash_settings d)\<lparr>duration := Seconds v\<rparr>\<rparr>)"
| "form_event (AspectButton a) d = d\<lparr>dash_settings := (dash_settings d)\<lparr>aspectRatio := a\<rparr>\<rparr>"
| "form_event (ClipsButton n) d = d\<lparr>dash_settings := (dash_settings d)\<lparr>numberOfClips := n\<rparr>\<rparr>"
| "form_event SubtitleToggle d =
     d\<lparr>dash_settings := (dash_settings d)
          \<lparr>generateSubtitles := \<not> generateSubtitles (dash_settings d)\<rparr>\<rparr>"
| "form_event (TemplateButton t) d = d\<lparr>dash_settings := (dash_settings d)\<lparr>template := t\<rparr>\<rparr>"
| "form_event GenerateClick d = handleGenerate d"
| "form_event _ d = d"

fun step :: "Dashboard \<Rightarrow> Event \<Rightarrow> Dashboard" where
  "step d ResetClick = (if dash_clips d \<noteq> [] then handleReset d else d)"
| "step d IntervalFired = (if stageInterval d then interval_tick d else d)"
| "step d TimeoutFired = (if timeoutId d then on_error TimedOut d else d)"
| "step d (FetchResolved r) = (if processing d then on_response r d else d)"
| "step d (FetchRejected m) = (if processing d then on_error (GenerateFailed m) d else d)"
| "step d e = (if form_shown d then form_event e d else d)"

definition run_events :: "Event list \<Rightarrow> Dashboard" where
  "run_events evs = foldl step initial_dashboard evs"

definition request_in_bounds :: "ClipSettings \<Rightarrow> bool" where
  "request_in_bounds cs =
     (1 \<le> numberOfClips cs \<and> numberOfClips cs \<le> 10 \<and>
      (case duration cs of Auto \<Rightarrow> True | Seconds n \<Rightarrow> 5 \<le> n \<and> n \<le> 120) \<and>
      aspectRatio cs \<in> {''9:16'', ''1:1'', ''4:5'', ''16:9''})"

text \<open>
  What holds of the component between renders: the interval and the timer are armed exactly
  while a call is in flight, and while it is, no clips are shown and the percentage is a
  whole number between 0 and 97.
\<close>

definition run_inv :: "Dashboard \<Rightarrow> bool" where
  "run_inv d =
     ((stageInterval d \<longleftrightarrow> processing d) \<and> (timeoutId d \<longleftrightarrow> processing d) \<and>
      (processing d \<longrightarrow> dash_clips d = [] \<and> 0 \<le> progress d \<and> progress d \<le> 97))"

text \<open>The settings stay among the values the controls offer.\<close>

definition settings_inv :: "Dashboard \<Rightarrow> bool" where
  "settings_inv d =
     (numberOfClips (dash_settings d) \<in> set CLIP_COUNT_BUTTONS \<and>
      aspectRatio (dash_settings d) \<in> set ASPECT_RATIOS \<and>
      5 \<le> customDuration d \<and> customDuration d \<le> 120 \<and>
      (case sent d of None \<Rightarrow> True | Some r \<Rightarrow> request_in_bounds (req_settings r)))"

subsection \<open>The generate call in time\<close>













text \<open>Two history items for concrete runs of the handlers.\<close>

definition item_a :: HistoryItem where
  "item_a =
     \<lparr>item_id = ''a'', sourceType = youtube, sourceName = ''talk'', sourceThumbnail = [],
      clips = [],
      settings = \<lparr>duration = Auto, aspectRatio = ''9:16'', numberOfClips = 3,
                  generateSubtitles = True, template = ''minimal'', detectionMethod = ''ai''\<rparr>,
      createdAt = ''2025-01-01T00:00:00.000Z'', status = completed, deletedAt = None,
      trashedAt = None\<rparr>"

definition item_b :: HistoryItem where
  "item_b = item_a\<lparr>item_id := ''b'', sourceType := upload\<rparr>"


section \<open>The pipeline's data (spec, section 3)\<close>

text \<open>
  The clip-generation pipeline runs in the backend, whose code is not among the source
  files: only the requests of the Dashboard and the README's endpoint list refer to it.
  The definitions of this and the following sections are modelled from the spec, each one
  marked so. Seconds and scores are exact rationals.
\<close>

text \<open>
  Modelled from the spec: the CandidateMoment record of section 3 (its producer, the
  Moment Detector, is missing from src/), with \<open>startTime\<close>, \<open>endTime\<close> in seconds,
  \<open>viralScore\<close> and the free-text \<open>reason\<close>.
\<close>

record CandidateMoment =
  m_startTime :: rat
  m_endTime :: rat
  m_viralScore :: rat
  m_reason :: string

text \<open>
  Modelled from the spec: the SelectedMoment of section 3 (its producer, the Selector, is
  missing from src/): a CandidateMoment promoted by the Selector.
\<close>

type_synonym SelectedMoment = CandidateMoment


section \<open>Moment Ranker/Selector (spec, section 4.4)\<close>

text \<open>
  Modelled from the spec: the overlap test of step 2 of the Selector (missing from src/).
  Two ranges overlap by the length of their intersection; a candidate is refused when
  that length exceeds the tolerance.
\<close>

definition overlaps :: "rat \<Rightarrow> CandidateMoment \<Rightarrow> CandidateMoment \<Rightarrow> bool" where
  "overlaps tol a b =
     (tol < min (m_endTime a) (m_endTime b) - max (m_startTime a) (m_startTime b))"

text \<open>
  Modelled from the spec: the order of step 1 of the Selector (missing from src/):
  descending score, ties broken by earlier start time.
\<close>

definition ranks_before :: "CandidateMoment \<Rightarrow> CandidateMoment \<Rightarrow> bool" where
  "ranks_before a b =
     (m_viralScore b < m_viralScore a \<or>
      (m_viralScore a = m_viralScore b \<and> m_startTime a \<le> m_startTime b))"

text \<open>
  Modelled from the spec: insertion into a ranked list, for the sort of step 1 of the
  Selector (missing from src/): an element goes in front of the first element it ranks
  before, so equal elements keep their input order.
\<close>

fun insert_ranked :: "CandidateMoment \<Rightarrow> CandidateMoment list \<Rightarrow> CandidateMoment list" where
  "insert_ranked c [] = [c]"
| "insert_ranked c (x # xs) = (if ranks_before c x then c # x # xs else x # insert_ranked c xs)"

text \<open>
  Modelled from the spec: the deterministic, stable sort of step 1 of the Selector (missing
  from src/), as an insertion sort.
\<close>

fun sort_candidates :: "CandidateMoment list \<Rightarrow> CandidateMoment list" where
  "sort_candidates [] = []"
| "sort_candidates (c # cs) = insert_ranked c (sort_candidates cs)"

text \<open>
  Modelled from the spec: step 3 of the Selector (missing from src/). With a fixed
  requested duration the accepted range becomes exactly that long around the candidate's
  midpoint and is then cut back to \<open>[0, mediaDuration]\<close>; with \<open>auto\<close> the range is kept.
\<close>

definition clamp_range :: "Duration \<Rightarrow> rat \<Rightarrow> CandidateMoment \<Rightarrow> SelectedMoment" where
  "clamp_range dur mediaDuration c =
     (case dur of
        Auto \<Rightarrow> c
      | Seconds d \<Rightarrow>
          let mid = (m_startTime c + m_endTime c) / 2
          in c\<lparr>m_startTime := max 0 (mid - of_int d / 2),
                m_endTime := min mediaDuration (mid + of_int d / 2)\<rparr>)"

text \<open>
  Modelled from the spec: steps 2 to 4 of the Selector (missing from src/), one candidate
  at a time in sorted order: stop once \<open>requestedCount\<close> moments are accepted (step 4);
  bring the candidate's range to the requested duration (step 3); skip it when that range
  overlaps an already accepted SelectedMoment's range by more than the tolerance (step 2),
  otherwise accept it. The range is clamped before it is compared, so that the ranges
  compared are those of SelectedMoments, which section 3 requires to be mutually
  non-overlapping. Accepted moments are kept in the order of acceptance (step 5).
\<close>

fun greedy_select ::
  "rat \<Rightarrow> rat \<Rightarrow> Duration \<Rightarrow> nat \<Rightarrow> SelectedMoment list \<Rightarrow> CandidateMoment list \<Rightarrow> SelectedMoment list"
where
  "greedy_select tol mediaDuration dur n acc [] = acc"
| "greedy_select tol mediaDuration dur n acc (c # cs) =
     (if n \<le> length acc then acc
      else if list_ex (overlaps tol (clamp_range dur mediaDuration c)) acc
      then greedy_select tol mediaDuration dur n acc cs
      else greedy_select tol mediaDuration dur n (acc @ [clamp_range dur mediaDuration c]) cs)"

text \<open>
  Modelled from the spec: \<open>select(candidates, requestedCount, requestedDuration)\<close> of
  section 4.4 (missing from src/), with the media duration that step 3 needs and the
  configurable tolerance as further arguments.
\<close>

definition select_with ::
  "rat \<Rightarrow> rat \<Rightarrow> CandidateMoment list \<Rightarrow> nat \<Rightarrow> Duration \<Rightarrow> SelectedMoment list" where
  "select_with tol mediaDuration candidates requestedCount requestedDuration =
     greedy_select tol mediaDuration requestedDuration requestedCount []
       (sort_candidates candidates)"

text \<open>
  Modelled from the spec: the Selector of section 4.4 (missing from src/) at the default
  tolerance 0.
\<close>

definition select :: "rat \<Rightarrow> CandidateMoment list \<Rightarrow> nat \<Rightarrow> Duration \<Rightarrow> SelectedMoment list" where
  "select mediaDuration candidates requestedCount requestedDuration =
     select_with 0 mediaDuration candidates requestedCount requestedDuration"



text \<open>A moment given by its range and score, for concrete runs of the Selector.\<close>

definition moment :: "rat \<Rightarrow> rat \<Rightarrow> rat \<Rightarrow> CandidateMoment" where
  "moment s e sc = \<lparr>m_startTime = s, m_endTime = e, m_viralScore = sc, m_reason = ''ai''\<rparr>"


section \<open>Pipeline Orchestrator (spec, sections 4.7 and 7)\<close>

text \<open>
  Modelled from the spec: the MediaAsset record of section 3 (its producer, the Source
  Acquirer, is missing from src/).
\<close>

record MediaAsset =
  media_path :: string
  media_duration :: rat
  container :: string
  media_thumbnail :: "string option"

text \<open>
  Modelled from the spec: the Utterance record of section 3 (its producer, the Transcriber,
  is missing from src/).
\<close>

record Utterance =
  u_start :: rat
  u_end :: rat
  u_text :: string

text \<open>
  Modelled from the spec: the Transcript of section 3 (Transcriber missing from src/): the
  utterances in chronological order.
\<close>

type_synonym Transcript = "Utterance list"

text \<open>
  Modelled from the spec: what the Clip Renderer hands to the Artifact Publisher (sections
  4.5 and 4.6; both components are missing from src/): the local artifact, its thumbnail
  and the rendered duration as displayed.
\<close>

record RenderedClip =
  artifact_path :: string
  artifact_thumbnail :: string
  rendered_text :: string

text \<open>
  Modelled from the spec: what \<open>publish\<close> returns (section 4.6; Publisher missing from
  src/).
\<close>

record Published =
  url :: string
  thumbnailUrl :: string

text \<open>Modelled from the spec: the error taxonomy of section 7 (no backend code in src/).\<close>

datatype ErrorCategory =
    SourceError
  | TranscriptionError
  | DetectionError
  | RenderError
  | PublishError
  | Timeout
  | Cancelled

text \<open>
  Modelled from the spec: the states of the Orchestrator's state machine of section 4.7
  (missing from src/); \<open>Completed\<close> and \<open>Failed\<close> are the terminal ones.
\<close>

datatype Phase =
    Queued
  | Acquiring
  | Transcribing
  | Detecting
  | Selecting
  | Rendering
  | Publishing
  | Completed
  | Failed ErrorCategory

text \<open>
  Modelled from the spec: which states of the state machine of section 4.7 are terminal
  (Orchestrator missing from src/).
\<close>

fun terminal :: "Phase \<Rightarrow> bool" where
  "terminal Completed = True"
| "terminal (Failed c) = True"
| "terminal _ = False"

text \<open>
  Modelled from the spec: the run-level events of section 4.7 (Orchestrator, missing from
  src/): the timeout ceiling is exceeded, or the caller cancels.
\<close>

datatype Interruption = DeadlineExceeded | CancelRequested

text \<open>
  Modelled from the spec: everything outside the Orchestrator that decides how one run
  goes (the components of sections 4.1 to 4.6 other than the Selector wrap external
  engines and storage and are missing from src/): whether acquisition yields a media file,
  what each transcription attempt yields, what the Detector returns, whether each render
  and each upload attempt succeeds, and whether the run is interrupted while in a given
  state. \<open>None\<close> is the component's failure. The bound on upload retries and the
  transcription ceiling are configuration.
\<close>

record Env =
  acquire_outcome :: "MediaAsset option"
  transcribe_outcome :: "nat \<Rightarrow> Transcript option"
  detect_outcome :: "CandidateMoment list option"
  render_outcome :: "SelectedMoment \<Rightarrow> RenderedClip option"
  publish_outcome :: "RenderedClip \<Rightarrow> nat \<Rightarrow> Published option"
  interruption :: "Phase \<Rightarrow> Interruption option"
  publish_retries :: nat
  transcribe_ceiling :: rat
  clip_title :: "SelectedMoment \<Rightarrow> string"
  clip_stamp :: string

text \<open>
  Modelled from the spec: the Transcriber's contract of section 4.2 (missing from src/):
  media beyond the ceiling fails fast, a failed attempt is retried once, a second failure
  is fatal.
\<close>

definition transcribe :: "Env \<Rightarrow> MediaAsset \<Rightarrow> Transcript option" where
  "transcribe env m =
     (if transcribe_ceiling env < media_duration m then None
      else case transcribe_outcome env 0 of
             Some t \<Rightarrow> Some t
           | None \<Rightarrow> transcribe_outcome env 1)"

text \<open>
  Modelled from the spec: the retry loop of the Publisher (section 4.6, missing from
  src/): the same artifact is uploaded again after a failure, up to the fixed bound of
  retries; the first success is the result.
\<close>

fun publish_from :: "(nat \<Rightarrow> Published option) \<Rightarrow> nat \<Rightarrow> nat \<Rightarrow> Published option" where
  "publish_from attempt k 0 = attempt k"
| "publish_from attempt k (Suc left) =
     (case attempt k of Some p \<Rightarrow> Some p | None \<Rightarrow> publish_from attempt (Suc k) left)"

text \<open>
  Modelled from the spec: \<open>publish\<close> of section 4.6 (missing from src/): the first
  attempt and the configured number of retries.
\<close>

definition publish :: "Env \<Rightarrow> RenderedClip \<Rightarrow> Published option" where
  "publish env a = publish_from (publish_outcome env a) 0 (publish_retries env)"

text \<open>
  Modelled from the spec: the GeneratedClip record of section 3 as the Renderer and
  Publisher pair creates it (missing from src/): the request's settings, the published
  URLs, and the originating SelectedMoment's score, reason and range. The fields are those
  of the \<open>GeneratedClip\<close> interface of the front end.
\<close>

definition make_clip ::
  "Env \<Rightarrow> ClipSettings \<Rightarrow> SelectedMoment \<Rightarrow> RenderedClip \<Rightarrow> Published \<Rightarrow> GeneratedClip" where
  "make_clip env cs m a p =
     \<lparr>clip_id = artifact_path a, title = clip_title env m, thumbnail = thumbnailUrl p,
      clip_duration = rendered_text a, clip_aspectRatio = aspectRatio cs,
      clip_template = template cs, hasSubtitles = generateSubtitles cs,
      video_url = url p, downloadUrl = url p, clip_createdAt = clip_stamp env,
      clip_detectionMethod = Some (detectionMethod cs),
      viralReason = Some (m_reason m), viralScore = Some (m_viralScore m),
      startTime = Some (m_startTime m), endTime = Some (m_endTime m)\<rparr>"

text \<open>
  Modelled from the spec: the per-clip fan-out of rendering (sections 4.5 and 4.7; missing
  from src/). Each selected moment is rendered on its own; a failure drops that clip only.
\<close>

definition render_all ::
  "Env \<Rightarrow> SelectedMoment list \<Rightarrow> (SelectedMoment \<times> RenderedClip) list" where
  "render_all env ms =
     List.map_filter (\<lambda>m. map_option (\<lambda>a. (m, a)) (render_outcome env m)) ms"

text \<open>
  Modelled from the spec: the per-clip fan-out of publishing (sections 4.6 and 4.7; missing
  from src/). Each rendered clip is published on its own and becomes a GeneratedClip; a
  failure drops that clip only.
\<close>

definition publish_all ::
  "Env \<Rightarrow> ClipSettings \<Rightarrow> (SelectedMoment \<times> RenderedClip) list \<Rightarrow> GeneratedClip list" where
  "publish_all env cs rs =
     List.map_filter (\<lambda>(m, a). map_option (make_clip env cs m a) (publish env a)) rs"

text \<open>
  Modelled from the spec: the record of one run that the Orchestrator keeps (section 4.7,
  missing from src/): its state, the scratch MediaAsset while it exists, the outputs of the
  stages so far, and the clips appended to the run.
\<close>

record RunState =
  phase :: Phase
  scratch :: "MediaAsset option"
  transcript :: Transcript
  candidates :: "CandidateMoment list"
  selected :: "SelectedMoment list"
  rendered :: "(SelectedMoment \<times> RenderedClip) list"
  run_clips :: "GeneratedClip list"

text \<open>
  Modelled from the spec: the run as \<open>generate\<close> creates it, in state \<open>Queued\<close>
  with nothing produced yet (sections 4.7 and 6; Orchestrator missing from src/).
\<close>

definition queued :: RunState where
  "queued = \<lparr>phase = Queued, scratch = None, transcript = [], candidates = [], selected = [],
             rendered = [], run_clips = []\<rparr>"

text \<open>
  Modelled from the spec: terminal failure (sections 3 and 4.7; Orchestrator missing from
  src/): the run becomes \<open>Failed\<close> with the category and the scratch MediaAsset is
  deleted.
\<close>

definition fail :: "ErrorCategory \<Rightarrow> RunState \<Rightarrow> RunState" where
  "fail c s = s\<lparr>phase := Failed c, scratch := None\<rparr>"

text \<open>
  Modelled from the spec: one transition of the state machine of section 4.7 with the
  propagation policy of section 7 (Orchestrator missing from src/). An error of Acquire,
  Transcribe or Detect aborts the run; Render and Publish fan out per moment and fan back
  in, and reach \<open>Failed\<close> only with zero survivors, \<open>Completed\<close> once every clip that
  survived rendering has been published. The spec names no category for a run in which
  no moment was selected; the model reports it as \<open>DetectionError\<close>.
\<close>

definition advance :: "Env \<Rightarrow> GenerationRequest \<Rightarrow> RunState \<Rightarrow> RunState" where
  "advance env req s =
     (case phase s of
        Queued \<Rightarrow> s\<lparr>phase := Acquiring\<rparr>
      | Acquiring \<Rightarrow>
          (case acquire_outcome env of
             None \<Rightarrow> fail SourceError s
           | Some m \<Rightarrow> s\<lparr>scratch := Some m, phase := Transcribing\<rparr>)
      | Transcribing \<Rightarrow>
          (case scratch s of
             None \<Rightarrow> fail SourceError s
           | Some m \<Rightarrow>
               (case transcribe env m of
                  None \<Rightarrow> fail TranscriptionError s
                | Some t \<Rightarrow> s\<lparr>transcript := t, phase := Detecting\<rparr>))
      | Detecting \<Rightarrow>
          (case detect_outcome env of
             None \<Rightarrow> fail DetectionError s
           | Some cs \<Rightarrow> s\<lparr>candidates := cs, phase := Selecting\<rparr>)
      | Selecting \<Rightarrow>
          (case scratch s of
             None \<Rightarrow> fail SourceError s
           | Some m \<Rightarrow>
               s\<lparr>selected := select (media_duration m) (candidates s)
                                (nat (numberOfClips (req_settings req)))
                                (duration (req_settings req)),
                 phase := Rendering\<rparr>)
      | Rendering \<Rightarrow>
          (if selected s = [] then fail DetectionError s
           else if render_all env (selected s) = [] then fail RenderError s
           else s\<lparr>rendered := render_all env (selected s), phase := Publishing\<rparr>)
      | Publishing \<Rightarrow>
          (if publish_all env (req_settings req) (rendered s) = [] then fail PublishError s
           else s\<lparr>run_clips := publish_all env (req_settings req) (rendered s),
                   scratch := None, phase := Completed\<rparr>)
      | Completed \<Rightarrow> s
      | Failed c \<Rightarrow> s)"

text \<open>
  Modelled from the spec: timeout and cancellation of section 4.7 (Orchestrator missing
  from src/): a run found interrupted in a non-terminal state fails with \<open>Timeout\<close> or
  \<open>Cancelled\<close> instead of taking its transition.
\<close>

definition step_run :: "Env \<Rightarrow> GenerationRequest \<Rightarrow> RunState \<Rightarrow> RunState" where
  "step_run env req s =
     (if terminal (phase s) then s
      else case interruption env (phase s) of
             Some DeadlineExceeded \<Rightarrow> fail Timeout s
           | Some CancelRequested \<Rightarrow> fail Cancelled s
           | None \<Rightarrow> advance env req s)"

text \<open>
  Modelled from the spec: the Orchestrator driving the state machine of section 4.7
  (missing from src/) for a number of transitions, stopping in a terminal state.
\<close>

fun run_steps :: "nat \<Rightarrow> Env \<Rightarrow> GenerationRequest \<Rightarrow> RunState \<Rightarrow> RunState" where
  "run_steps 0 env req s = s"
| "run_steps (Suc k) env req s =
     (if terminal (phase s) then s else run_steps k env req (step_run env req s))"

text \<open>
  Modelled from the spec: one run of the pipeline for one GenerationRequest (section 4.7,
  Orchestrator missing from src/): the state machine driven from \<open>Queued\<close>; seven
  transitions lead through every stage.
\<close>

definition run :: "Env \<Rightarrow> GenerationRequest \<Rightarrow> RunState" where
  "run env req = run_steps 7 env req queued"

text \<open>The number of transitions a state is away from a terminal one, at most.\<close>

fun remaining :: "Phase \<Rightarrow> nat" where
  "remaining Queued = 7"
| "remaining Acquiring = 6"
| "remaining Transcribing = 5"
| "remaining Detecting = 4"
| "remaining Selecting = 3"
| "remaining Rendering = 2"
| "remaining Publishing = 1"
| "remaining Completed = 0"
| "remaining (Failed c) = 0"

text \<open>
  The clips that survive a run whose stages before the fan-out all succeed: the selected
  moments whose render and whose upload succeed, in selection order.
\<close>

definition survivors :: "Env \<Rightarrow> GenerationRequest \<Rightarrow> MediaAsset \<Rightarrow> CandidateMoment list \<Rightarrow> GeneratedClip list" where
  "survivors env req m cs =
     publish_all env (req_settings req)
       (render_all env (select (media_duration m) cs (nat (numberOfClips (req_settings req)))
                          (duration (req_settings req))))"

text \<open>The states a run can be interrupted in.\<close>

definition active_phases :: "Phase list" where
  "active_phases = [Queued, Acquiring, Transcribing, Detecting, Selecting, Rendering, Publishing]"






text \<open>No stage before the fan-out fails and the run is never interrupted.\<close>

definition reaches_fan_out :: "Env \<Rightarrow> MediaAsset \<Rightarrow> CandidateMoment list \<Rightarrow> bool" where
  "reaches_fan_out env m cs =
     (acquire_outcome env = Some m \<and> transcribe env m \<noteq> None \<and>
      detect_outcome env = Some cs \<and>
      list_all (\<lambda>p. interruption env p = None) active_phases)"

text \<open>A concrete run: a ten-minute upload, five candidates, three clips requested.\<close>

definition sample_media :: MediaAsset where
  "sample_media =
     \<lparr>media_path = ''run/source.mp4'', media_duration = 600, container = ''mp4'',
      media_thumbnail = None\<rparr>"

definition sample_candidates :: "CandidateMoment list" where
  "sample_candidates =
     [moment 0 60 (9/10), moment 30 90 (8/10), moment 120 180 (7/10),
      moment 150 200 (6/10), moment 300 360 (5/10)]"

definition sample_request :: GenerationRequest where
  "sample_request =
     \<lparr>req_kind = tab_upload, req_source = ''talk.mp4'',
      req_settings = \<lparr>duration = Auto, aspectRatio = ''9:16'', numberOfClips = 3,
                      generateSubtitles = True, template = ''minimal'',
                      detectionMethod = ''ai''\<rparr>\<rparr>"

text \<open>
  Its environment: the first transcription attempt and the first upload attempt of every
  clip fail and the retries succeed; a moment renders when it starts before the given
  second.
\<close>

definition sample_env :: "rat \<Rightarrow> Env" where
  "sample_env limit =
     \<lparr>acquire_outcome = Some sample_media,
      transcribe_outcome = (\<lambda>k. if k = 0 then None else Some []),
      detect_outcome = Some sample_candidates,
      render_outcome =
        (\<lambda>m. if m_startTime m < limit
              then Some \<lparr>artifact_path = ''run/clip.mp4'', artifact_thumbnail = ''run/clip.jpg'',
                         rendered_text = ''1:00''\<rparr>
              else None),
      publish_outcome =
        (\<lambda>a k. if k = 0 then None
                else Some \<lparr>url = ''https://cdn/clip.mp4'', thumbnailUrl = ''https://cdn/clip.jpg''\<rparr>),
      interruption = (\<lambda>p. None),
      publish_retries = 2,
      transcribe_ceiling = 7200,
      clip_title = m_reason,
      clip_stamp = ''2025-01-01T00:00:00.000Z''\<rparr>"

text \<open>The facts that hold of every state of a run.\<close>

definition clips_inv :: "RunState \<Rightarrow> bool" where
  "clips_inv s =
     ((phase s = Completed \<longrightarrow> run_clips s \<noteq> []) \<and>
      (phase s \<noteq> Completed \<longrightarrow> run_clips s = []) \<and>
      (terminal (phase s) \<longrightarrow> scratch s = None))"


section \<open>Moment Detector (spec, section 4.3)\<close>

text \<open>
  Modelled from the spec: what the external scoring engine gives the Detector (section
  4.3; the Detector is missing from src/): it cannot be reached, or it returns candidates,
  each with its range, score and free-text reason.
\<close>

datatype EngineResult = Unreachable | Returned "CandidateMoment list"

text \<open>
  Modelled from the spec: the validation rule of section 4.3 (Detector missing from src/):
  \<open>0 <= start < end <= mediaDuration\<close> and \<open>0.0 <= score <= 1.0\<close>.
\<close>

definition valid_candidate :: "rat \<Rightarrow> CandidateMoment \<Rightarrow> bool" where
  "valid_candidate mediaDuration c =
     (0 \<le> m_startTime c \<and> m_startTime c < m_endTime c \<and> m_endTime c \<le> mediaDuration \<and>
      0 \<le> m_viralScore c \<and> m_viralScore c \<le> 1)"

text \<open>
  Modelled from the spec: the usable candidates of section 4.3 (Detector missing from
  src/): the returned candidates without those that violate the rule.
\<close>

definition usable :: "rat \<Rightarrow> CandidateMoment list \<Rightarrow> CandidateMoment list" where
  "usable mediaDuration cs = filter (valid_candidate mediaDuration) cs"

text \<open>
  Modelled from the spec: what section 4.3 leaves to configuration (Detector missing from
  src/): the window length that stands for the requested duration \<open>auto\<close>, and the score
  and the reason text that mark a heuristic moment.
\<close>

record DetectorConfig =
  auto_window :: rat
  heuristic_score :: rat
  heuristic_reason :: string

text \<open>
  Modelled from the spec: the length of a fallback window (section 4.3, Detector missing
  from src/): the requested duration, or the configured length when it is \<open>auto\<close>.
\<close>

definition window_length :: "DetectorConfig \<Rightarrow> Duration \<Rightarrow> rat" where
  "window_length cfg dur = (case dur of Auto \<Rightarrow> auto_window cfg | Seconds d \<Rightarrow> of_int d)"

text \<open>
  Modelled from the spec: the spacing of the fallback windows (section 4.3, Detector
  missing from src/): even, with the first window starting at 0 and the last ending with
  the media.
\<close>

definition window_gap :: "rat \<Rightarrow> nat \<Rightarrow> rat \<Rightarrow> rat" where
  "window_gap mediaDuration n w = (if n \<le> 1 then 0 else (mediaDuration - w) / of_nat (n - 1))"

text \<open>
  Modelled from the spec: one fallback window (section 4.3, Detector missing from src/),
  marked as heuristic by its reason.
\<close>

definition heuristic_window :: "DetectorConfig \<Rightarrow> rat \<Rightarrow> rat \<Rightarrow> nat \<Rightarrow> CandidateMoment" where
  "heuristic_window cfg gap w i =
     \<lparr>m_startTime = of_nat i * gap, m_endTime = of_nat i * gap + w,
      m_viralScore = heuristic_score cfg, m_reason = heuristic_reason cfg\<rparr>"

text \<open>
  Modelled from the spec: the heuristic fallback of sections 4.3 and 8 (Detector missing
  from src/): \<open>requestedClipCount\<close> evenly spaced windows sized to the requested
  duration; none when the media is shorter than one window.
\<close>

definition heuristic_windows :: "DetectorConfig \<Rightarrow> rat \<Rightarrow> nat \<Rightarrow> Duration \<Rightarrow> CandidateMoment list" where
  "heuristic_windows cfg mediaDuration n dur =
     (let w = window_length cfg dur
      in if w \<le> 0 \<or> mediaDuration < w then []
         else map (heuristic_window cfg (window_gap mediaDuration n w) w) [0..<n])"

text \<open>
  Modelled from the spec: \<open>detect\<close> of section 4.3 (missing from src/), on the engine's
  result in place of the transcript it is computed from, and with the requested duration
  that sizes the fallback windows. Invalid candidates are discarded; with zero usable
  candidates the heuristic takes over; the Detector fails (\<open>None\<close>, a DetectionError)
  only when the engine is unreachable and no fallback is possible.
\<close>

definition detect ::
  "DetectorConfig \<Rightarrow> EngineResult \<Rightarrow> rat \<Rightarrow> nat \<Rightarrow> Duration \<Rightarrow> CandidateMoment list option" where
  "detect cfg engine mediaDuration requestedClipCount dur =
     (case engine of
        Returned cs \<Rightarrow>
          (if usable mediaDuration cs \<noteq> [] then Some (usable mediaDuration cs)
           else Some (heuristic_windows cfg mediaDuration requestedClipCount dur))
      | Unreachable \<Rightarrow>
          (if heuristic_windows cfg mediaDuration requestedClipCount dur = [] then None
           else Some (heuristic_windows cfg mediaDuration requestedClipCount dur)))"













section \<open>Clip Renderer: the aspect-ratio transform (spec, section 4.5 and glossary)\<close>

text \<open>
  Modelled from the spec: a video frame as the aspect-ratio transform of the Clip Renderer
  sees it (section 4.5; the Renderer is missing from src/): its width and height.
\<close>

record Frame =
  frame_w :: rat
  frame_h :: rat

text \<open>
  Modelled from the spec: the output of letterboxing (glossary: aspect-ratio conversion by
  padding; Renderer missing from src/): the padded canvas and the place of the source
  frame's top-left corner on it.
\<close>

record Padded =
  canvas_w :: rat
  canvas_h :: rat
  offset_x :: rat
  offset_y :: rat

text \<open>
  Modelled from the spec: the requested aspect ratios of section 3 as width to height
  (Renderer missing from src/); the strings are those of \<open>ASPECT_RATIOS\<close>.
\<close>

definition ratio_of :: "string \<Rightarrow> (rat \<times> rat) option" where
  "ratio_of ar =
     (if ar = ''9:16'' then Some (9, 16)
      else if ar = ''1:1'' then Some (1, 1)
      else if ar = ''4:5'' then Some (4, 5)
      else if ar = ''16:9'' then Some (16, 9)
      else None)"

text \<open>
  Modelled from the spec: letterboxing (section 4.5 and glossary; Renderer missing from
  src/): the frame is converted to the ratio \<open>a : b\<close> by padding alone. A frame at least
  as wide as the target keeps its width and gets bars above and below; a narrower one
  keeps its height and gets bars left and right; the frame sits in the middle.
\<close>

definition letterbox :: "Frame \<Rightarrow> rat \<times> rat \<Rightarrow> Padded" where
  "letterbox f r =
     (case r of (a, b) \<Rightarrow>
        if frame_h f * a \<le> frame_w f * b
        then \<lparr>canvas_w = frame_w f, canvas_h = frame_w f * b / a,
              offset_x = 0, offset_y = (frame_w f * b / a - frame_h f) / 2\<rparr>
        else \<lparr>canvas_w = frame_h f * a / b, canvas_h = frame_h f,
              offset_x = (frame_h f * a / b - frame_w f) / 2, offset_y = 0\<rparr>)"

text \<open>
  Modelled from the spec: the aspect-ratio transform of \<open>render\<close> (section 4.5, missing
  from src/): always letterboxing, for whichever ratio is requested.
\<close>

definition aspect_transform :: "Frame \<Rightarrow> string \<Rightarrow> Padded option" where
  "aspect_transform f ar = map_option (letterbox f) (ratio_of ar)"

text \<open>
  The whole source frame lies on the canvas: nothing of it is cropped. The canvas has the
  ratio \<open>a : b\<close>, and it is wider or higher than the frame in one direction at most.
\<close>

definition uncropped :: "Frame \<Rightarrow> Padded \<Rightarrow> bool" where
  "uncropped f p =
     (0 \<le> offset_x p \<and> offset_x p + frame_w f \<le> canvas_w p \<and>
      0 \<le> offset_y p \<and> offset_y p + frame_h f \<le> canvas_h p)"

definition has_ratio :: "Padded \<Rightarrow> rat \<times> rat \<Rightarrow> bool" where
  "has_ratio p r = (case r of (a, b) \<Rightarrow> canvas_w p * b = canvas_h p * a)"

definition padded_one_way :: "Frame \<Rightarrow> Padded \<Rightarrow> bool" where
  "padded_one_way f p = (canvas_w p = frame_w f \<or> canvas_h p = frame_h f)"


section \<open>Properties of the History page\<close>

subsection \<open>Retention window\<close>

lemma daysUntilPurge_formula:
  "daysUntilPurge d now = max 0 \<lceil>(of_int (d + 10 * day_ms - now) :: rat) / of_int day_ms\<rceil>"
  by (simp add: daysUntilPurge_def day_ms_def Let_def)

lemma daysUntilPurge_zero_iff:
  "daysUntilPurge d now = 0 \<longleftrightarrow> d + 10 * day_ms \<le> now"
proof -
  let ?x = "(of_int (d + 10 * day_ms - now) :: rat) / of_int day_ms"
  have pos: "(0::rat) < of_int day_ms" by (simp add: day_ms_def)
  have "daysUntilPurge d now = 0 \<longleftrightarrow> \<lceil>?x\<rceil> \<le> 0"
    unfolding daysUntilPurge_formula by linarith
  also have "\<dots> \<longleftrightarrow> ?x \<le> 0" by (simp add: ceiling_le_zero)
  also have "\<dots> \<longleftrightarrow> (of_int (d + 10 * day_ms - now) :: rat) \<le> 0"
    using pos by (simp add: divide_le_0_iff)
  also have "\<dots> \<longleftrightarrow> d + 10 * day_ms - now \<le> 0" by (simp only: of_int_le_0_iff)
  also have "\<dots> \<longleftrightarrow> d + 10 * day_ms \<le> now" by arith
  finally show ?thesis .
qed

lemma daysUntilPurge_antimono:
  assumes "now \<le> now'"
  shows "daysUntilPurge d now' \<le> daysUntilPurge d now"
proof -
  have pos: "(0::rat) < of_int day_ms" by (simp add: day_ms_def)
  have "(of_int (d + 10 * day_ms - now') :: rat) \<le> of_int (d + 10 * day_ms - now)"
    using assms by simp
  then have "(of_int (d + 10 * day_ms - now') :: rat) / of_int day_ms
        \<le> of_int (d + 10 * day_ms - now) / of_int day_ms"
    using pos by (simp add: divide_right_mono)
  then have "\<lceil>(of_int (d + 10 * day_ms - now') :: rat) / of_int day_ms\<rceil>
        \<le> \<lceil>(of_int (d + 10 * day_ms - now) :: rat) / of_int day_ms\<rceil>"
    by (rule ceiling_mono)
  then show ?thesis unfolding daysUntilPurge_formula by linarith
qed

text \<open>
  Claim C9. Soft-deleted history items use a fixed 10-day retention window: for every
  deletion timestamp, the days remaining until permanent purge are
  \<open>max(0, ceil((deletedAt + 10 days - now) / 1 day))\<close>; the value is never negative, it
  does not grow as time passes, and it is 0 exactly when 10 days have elapsed since the
  deletion.
\<close>

theorem daysUntilPurge_retention:
  "daysUntilPurge deletedAt_ms now
     = max 0 \<lceil>(of_int (deletedAt_ms + 10 * day_ms - now) :: rat) / of_int day_ms\<rceil> \<and>
   0 \<le> daysUntilPurge deletedAt_ms now \<and>
   (daysUntilPurge deletedAt_ms now = 0 \<longleftrightarrow> deletedAt_ms + 10 * day_ms \<le> now) \<and>
   (now \<le> now' \<longrightarrow> daysUntilPurge deletedAt_ms now' \<le> daysUntilPurge deletedAt_ms now)"
proof -
  have "0 \<le> daysUntilPurge deletedAt_ms now"
    unfolding daysUntilPurge_formula by simp
  then show ?thesis
    using daysUntilPurge_formula[of deletedAt_ms now] daysUntilPurge_zero_iff[of deletedAt_ms now]
      daysUntilPurge_antimono[of now now' deletedAt_ms]
    by blast
qed

theorem daysUntilPurge_retention_witness:
  "(1000::int) \<le> 1000 + 10 * day_ms \<and>
   daysUntilPurge 1000 (1000 + 10 * day_ms) = 0 \<and>
   daysUntilPurge 1000 (1000 + 10 * day_ms) \<le> daysUntilPurge 1000 1000"
proof -
  have h: "(1000::int) \<le> 1000 + 10 * day_ms" by (simp add: day_ms_def)
  show ?thesis
    using h daysUntilPurge_retention[of 1000 "1000 + 10 * day_ms" "1000 + 10 * day_ms"]
      daysUntilPurge_retention[of 1000 1000 "1000 + 10 * day_ms"]
    by simp
qed

subsection \<open>Soft delete and restore\<close>

lemma find_by_id:
  "distinct (map item_id xs) \<Longrightarrow> item \<in> set xs \<Longrightarrow>
   find (\<lambda>x. item_id x = item_id item) xs = Some item"
proof (induction xs)
  case Nil
  then show ?case by simp
next
  case (Cons x xs)
  then show ?case by (cases "x = item") (auto simp: image_iff)
qed

lemma find_id_Some:
  "find (\<lambda>x. item_id x = i) xs = Some y \<Longrightarrow> y \<in> set xs \<and> item_id y = i"
  by (induction xs) (auto split: if_splits)

lemma filter_other_ids:
  "i \<notin> set (map item_id xs) \<Longrightarrow> filter (\<lambda>x. item_id x \<noteq> i) xs = xs"
  by (induction xs) auto

lemma mset_ids_filter:
  "distinct (map item_id xs) \<Longrightarrow> i \<in> set (map item_id xs) \<Longrightarrow>
   add_mset i (mset (map item_id (filter (\<lambda>x. item_id x \<noteq> i) xs))) = mset (map item_id xs)"
proof (induction xs)
  case Nil
  then show ?case by simp
next
  case (Cons x xs)
  show ?case
  proof (cases "item_id x = i")
    case True
    then have "i \<notin> set (map item_id xs)" using Cons.prems by auto
    then show ?thesis using True by (simp add: filter_other_ids)
  next
    case False
    then show ?thesis using Cons by auto
  qed
qed

lemma filter_id_remove1:
  "distinct (map item_id xs) \<Longrightarrow> item \<in> set xs \<Longrightarrow>
   filter (\<lambda>x. item_id x \<noteq> item_id item) xs = remove1 item xs"
proof (induction xs)
  case Nil
  then show ?case by simp
next
  case (Cons x xs)
  show ?case
  proof (cases "x = item")
    case True
    then have "item_id item \<notin> set (map item_id xs)" using Cons.prems by auto
    then show ?thesis using True by (simp add: filter_other_ids)
  next
    case False
    then have "item_id x \<noteq> item_id item" using Cons.prems by (auto simp: image_iff)
    then show ?thesis using False Cons by auto
  qed
qed

text \<open>
  Claim C10, as amended. Soft delete followed by restore is a round trip on history items
  when the items of the page have pairwise different ids and each handler call resumes
  with the item as its closure holds it still in the list, as it is when no other call
  resumes in between. Then, for every item of the active list: soft-deleting it removes it
  from the active list and puts it at the front of the trash with \<open>deletedAt\<close> set and
  every other field unchanged; restoring it removes it from the trash and puts it at the
  front of the active list with \<open>deletedAt\<close> cleared and every other field as in the
  original, so that the trash is as before and, if the original carried no
  \<open>deletedAt\<close>, the active list has the members it had; each of the two operations
  preserves the ids held by the active list and the trash together. A click followed by
  the resumption of its call, once for each handler, is such a run.
\<close>

theorem soft_delete_restore_round_trip:
  assumes dist: "distinct (all_ids st)" and mem: "item \<in> set (activeItems st)"
    and c1: "find (\<lambda>x. item_id x = item_id item) closure1 = Some item"
    and c2: "find (\<lambda>x. item_id x = item_id item) closure2
               = Some (item\<lparr>deletedAt := Some now\<rparr>)"
  shows "activeItems (handleSoftDelete now (item_id item) closure1 st)
           = remove1 item (activeItems st) \<and>
         item \<notin> set (activeItems (handleSoftDelete now (item_id item) closure1 st)) \<and>
         trashItems (handleSoftDelete now (item_id item) closure1 st)
           = item\<lparr>deletedAt := Some now\<rparr> # trashItems st \<and>
         activeItems (handleRestore (item_id item) closure2
                        (handleSoftDelete now (item_id item) closure1 st))
           = item\<lparr>deletedAt := None\<rparr> # remove1 item (activeItems st) \<and>
         trashItems (handleRestore (item_id item) closure2
                       (handleSoftDelete now (item_id item) closure1 st))
           = trashItems st \<and>
         mset (all_ids (handleSoftDelete now (item_id item) closure1 st)) = mset (all_ids st) \<and>
         mset (all_ids (handleRestore (item_id item) closure2
                          (handleSoftDelete now (item_id item) closure1 st)))
           = mset (all_ids st) \<and>
         (deletedAt item = None \<longrightarrow>
            mset (activeItems (handleRestore (item_id item) closure2
                                 (handleSoftDelete now (item_id item) closure1 st)))
              = mset (activeItems st)) \<and>
         page_lists (history_run st [SoftDeleteClicked (item_id item), CallResumed 0 now])
           = handleSoftDelete now (item_id item) (activeItems st) st \<and>
         page_lists (history_run st [SoftDeleteClicked (item_id item), CallResumed 0 now,
                                     RestoreClicked (item_id item), CallResumed 0 later])
           = \<lparr>activeItems = item\<lparr>deletedAt := None\<rparr> # remove1 item (activeItems st),
              trashItems = trashItems st\<rparr>"
proof -
  let ?i = "item_id item"
  let ?st1 = "handleSoftDelete now ?i closure1 st"
  let ?st2 = "handleRestore ?i closure2 ?st1"
  have da: "distinct (map item_id (activeItems st))" using dist by (simp add: all_ids_def)
  have found: "find (\<lambda>x. item_id x = ?i) (activeItems st) = Some item"
    by (rule find_by_id[OF da mem])
  have notrash: "?i \<notin> set (map item_id (trashItems st))"
    using dist mem by (auto simp: all_ids_def)
  have ina: "?i \<in> set (map item_id (activeItems st))" using mem by force
  have f1: "activeItems ?st1 = filter (\<lambda>x. item_id x \<noteq> ?i) (activeItems st)"
    using c1 by (simp add: handleSoftDelete_def Let_def)
  have a1: "activeItems ?st1 = remove1 item (activeItems st)"
    using f1 filter_id_remove1[OF da mem] by simp
  have dI: "distinct (activeItems st)" using da by (simp add: distinct_map)
  have a2: "item \<notin> set (activeItems ?st1)" using a1 dI by simp
  have t1: "trashItems ?st1 = item\<lparr>deletedAt := Some now\<rparr> # trashItems st"
    using c1 by (simp add: handleSoftDelete_def Let_def)
  have a3: "activeItems ?st2 = item\<lparr>deletedAt := None\<rparr> # remove1 item (activeItems st)"
    using c2 a1 by (simp add: handleRestore_def Let_def)
  have t3: "trashItems ?st2 = trashItems st"
    using c2 t1 filter_other_ids[OF notrash] by (simp add: handleRestore_def Let_def)
  have ids: "add_mset ?i (mset (map item_id (activeItems ?st1))) = mset (map item_id (activeItems st))"
    unfolding f1 by (rule mset_ids_filter[OF da ina])
  have m1: "mset (all_ids ?st1) = mset (all_ids st)"
    using ids t1 by (simp add: all_ids_def)
  have m2: "mset (all_ids ?st2) = mset (all_ids st)"
    using ids a1 a3 t3 by (simp add: all_ids_def)
  have r: "deletedAt item = None \<longrightarrow> mset (activeItems ?st2) = mset (activeItems st)"
  proof
    assume "deletedAt item = None"
    then have "item\<lparr>deletedAt := None\<rparr> = item" by simp
    then show "mset (activeItems ?st2) = mset (activeItems st)"
      using a3 mem by simp
  qed
  have p1: "page_lists (history_run st [SoftDeleteClicked ?i, CallResumed 0 now])
      = handleSoftDelete now ?i (activeItems st) st"
    by (simp add: history_run_def)
  let ?s1 = "handleSoftDelete now ?i (activeItems st) st"
  have s1: "?s1 = \<lparr>activeItems = remove1 item (activeItems st),
                       trashItems = item\<lparr>deletedAt := Some now\<rparr> # trashItems st\<rparr>"
    using found filter_id_remove1[OF da mem] by (simp add: handleSoftDelete_def Let_def)
  have p2: "page_lists (history_run st [SoftDeleteClicked ?i, CallResumed 0 now,
                                        RestoreClicked ?i, CallResumed 0 later])
      = handleRestore ?i (trashItems ?s1) ?s1"
    by (simp add: history_run_def)
  have s2: "handleRestore ?i (trashItems ?s1) ?s1
      = \<lparr>activeItems = item\<lparr>deletedAt := None\<rparr> # remove1 item (activeItems st),
         trashItems = trashItems st\<rparr>"
    unfolding s1 using filter_other_ids[OF notrash] by (simp add: handleRestore_def Let_def)
  show ?thesis
    apply (intro conjI)
    apply (rule a1)
    apply (rule a2)
    apply (rule t1)
    apply (rule a3)
    apply (rule t3)
    apply (rule m1)
    apply (rule m2)
    apply (rule r)
    apply (rule p1)
    apply (simp only: p2 s2)
    done
qed

theorem soft_delete_restore_round_trip_witness:
  "distinct (all_ids \<lparr>activeItems = [item_a, item_b], trashItems = []\<rparr>) \<and>
   item_b \<in> set (activeItems \<lparr>activeItems = [item_a, item_b], trashItems = []\<rparr>) \<and>
   find (\<lambda>x. item_id x = item_id item_b) [item_a, item_b] = Some item_b \<and>
   find (\<lambda>x. item_id x = item_id item_b) [item_b\<lparr>deletedAt := Some 1000\<rparr>]
     = Some (item_b\<lparr>deletedAt := Some 1000\<rparr>) \<and>
   deletedAt item_b = None \<and>
   trashItems (handleSoftDelete 1000 (item_id item_b) [item_a, item_b]
                 \<lparr>activeItems = [item_a, item_b], trashItems = []\<rparr>)
     = [item_b\<lparr>deletedAt := Some 1000\<rparr>] \<and>
   activeItems (handleSoftDelete 1000 (item_id item_b) [item_a, item_b]
                 \<lparr>activeItems = [item_a, item_b], trashItems = []\<rparr>)
     = [item_a] \<and>
   page_lists (history_run \<lparr>activeItems = [item_a, item_b], trashItems = []\<rparr>
                 [SoftDeleteClicked (item_id item_b), CallResumed 0 1000,
                  RestoreClicked (item_id item_b), CallResumed 0 2000])
     = \<lparr>activeItems = [item_b, item_a], trashItems = []\<rparr>"
proof -
  let ?st = "\<lparr>activeItems = [item_a, item_b], trashItems = []\<rparr>"
  have h1: "distinct (all_ids ?st)" by (simp add: all_ids_def item_a_def item_b_def)
  have h2: "item_b \<in> set (activeItems ?st)" by simp
  have h3: "deletedAt item_b = None" by (simp add: item_a_def item_b_def)
  have ne: "item_a \<noteq> item_b" by (simp add: item_a_def item_b_def)
  have h4: "find (\<lambda>x. item_id x = item_id item_b) [item_a, item_b] = Some item_b"
    by (simp add: item_a_def item_b_def)
  have h5: "find (\<lambda>x. item_id x = item_id item_b) [item_b\<lparr>deletedAt := Some 1000\<rparr>]
     = Some (item_b\<lparr>deletedAt := Some 1000\<rparr>)"
    by simp
  have clr: "item_b\<lparr>deletedAt := None\<rparr> = item_b" using h3 by simp
  note th = soft_delete_restore_round_trip[OF h1 h2 h4 h5, of 2000]
  show ?thesis
    using h1 h2 h3 h4 h5 ne clr th
    by simp
qed

text \<open>
  Claim C10 as stated fails in two ways. With two active items of the same id, soft delete
  followed by restore loses the second of them: \<open>filter\<close> drops both and \<open>find\<close> had
  taken the first. And when the restore button of a trashed item is clicked twice before
  the first call resumes, both calls find the item in their closure and the item is in the
  active list twice.
\<close>

theorem soft_delete_restore_not_round_trip:
  "item_a\<lparr>sourceName := ''copy''\<rparr>
     \<in> set (activeItems \<lparr>activeItems = [item_a, item_a\<lparr>sourceName := ''copy''\<rparr>, item_b],
                           trashItems = []\<rparr>) \<and>
   page_lists (history_run
                 \<lparr>activeItems = [item_a, item_a\<lparr>sourceName := ''copy''\<rparr>, item_b],
                  trashItems = []\<rparr>
                 [SoftDeleteClicked ''a'', CallResumed 0 1000,
                  RestoreClicked ''a'', CallResumed 0 2000])
     = \<lparr>activeItems = [item_a, item_b], trashItems = []\<rparr> \<and>
   item_a\<lparr>sourceName := ''copy''\<rparr> \<notin> set [item_a, item_b] \<and>
   distinct (all_ids \<lparr>activeItems = [item_a],
                       trashItems = [item_b\<lparr>deletedAt := Some 1000\<rparr>]\<rparr>) \<and>
   page_lists (history_run
                 \<lparr>activeItems = [item_a], trashItems = [item_b\<lparr>deletedAt := Some 1000\<rparr>]\<rparr>
                 [RestoreClicked ''b'', RestoreClicked ''b'', CallResumed 0 2000,
                  CallResumed 0 3000])
     = \<lparr>activeItems = [item_b, item_b, item_a], trashItems = []\<rparr> \<and>
   all_ids \<lparr>activeItems = [item_b, item_b, item_a], trashItems = []\<rparr> = [''b'', ''b'', ''a'']"
  by (simp add: history_run_def handleSoftDelete_def handleRestore_def all_ids_def
      item_a_def item_b_def Let_def)


section \<open>Properties of the Dashboard\<close>

lemma run_events_snoc: "run_events (evs @ [e]) = step (run_events evs) e"
  by (simp add: run_events_def)

lemma run_events_Nil: "run_events [] = initial_dashboard"
  by (simp add: run_events_def)

subsection \<open>Progress\<close>

lemma progress_next_bounds:
  "prev \<le> 97 \<Longrightarrow> prev \<le> progress_next tc prev \<and> progress_next tc prev \<le> 97"
  by (simp add: progress_next_def)

lemma progress_interval_tick:
  "progress (interval_tick d) = progress_next (tickCount d + 1) (progress d)"
  by (simp add: interval_tick_def progress_next_def Let_def)

lemma interval_tick_frame:
  "processing (interval_tick d) = processing d"
  "stageInterval (interval_tick d) = stageInterval d"
  "timeoutId (interval_tick d) = timeoutId d"
  "dash_clips (interval_tick d) = dash_clips d"
  by (simp_all add: interval_tick_def Let_def)

lemma run_inv_step: "run_inv d \<Longrightarrow> run_inv (step d e)"
proof (cases e)
  case GenerateClick
  assume "run_inv d"
  then show ?thesis using GenerateClick
    by (auto simp: run_inv_def form_shown_def handleGenerate_def)
next
  case IntervalFired
  assume "run_inv d"
  then show ?thesis using IntervalFired progress_next_bounds[of "progress d" "tickCount d + 1"]
    by (auto simp: run_inv_def interval_tick_frame progress_interval_tick)
next
  case (FetchResolved r)
  assume "run_inv d"
  then show ?thesis using FetchResolved
    by (cases r) (auto simp: run_inv_def on_response_def on_error_def)
qed (auto simp: run_inv_def form_shown_def handleReset_def on_error_def split: Duration.splits)

lemma run_inv_reachable: "run_inv (run_events evs)"
proof (induction evs rule: rev_induct)
  case Nil
  show ?case by (simp add: run_events_Nil run_inv_def initial_dashboard_def)
next
  case (snoc e evs)
  then show ?case by (simp add: run_events_snoc run_inv_step)
qed

lemma step_progress_processing:
  assumes "run_inv d" "processing d"
  shows "progress d \<le> progress (step d e)"
proof (cases e)
  case IntervalFired
  then show ?thesis using assms progress_next_bounds[of "progress d" "tickCount d + 1"]
    by (auto simp: run_inv_def progress_interval_tick)
next
  case (FetchResolved r)
  then show ?thesis using assms
    by (cases r) (auto simp: run_inv_def on_response_def on_error_def)
qed (use assms in \<open>auto simp: run_inv_def form_shown_def on_error_def\<close>)

lemma step_progress_100:
  assumes "run_inv d" "progress (step d e) = 100" "progress d \<noteq> 100"
  shows "\<exists>cl. e = FetchResolved (Body ''completed'' cl) \<and> processing d"
proof (cases e)
  case IntervalFired
  then show ?thesis using assms progress_next_bounds[of "progress d" "tickCount d + 1"]
    by (auto simp: run_inv_def progress_interval_tick split: if_splits)
next
  case (FetchResolved r)
  then show ?thesis using assms
    by (cases r) (auto simp: run_inv_def on_response_def on_error_def split: if_splits)
next
  case GenerateClick
  then show ?thesis using assms
    by (auto simp: form_shown_def handleGenerate_def split: if_splits)
next
  case (DurationButton b)
  then show ?thesis using assms by (cases b) (auto split: if_splits)
qed (use assms in \<open>auto simp: run_inv_def form_shown_def on_error_def handleReset_def
       split: if_splits\<close>)

lemma progress_100_completed:
  "progress (run_events evs) = 100 \<Longrightarrow> \<exists>cl. FetchResolved (Body ''completed'' cl) \<in> set evs"
proof (induction evs rule: rev_induct)
  case Nil
  then show ?case by (simp add: run_events_Nil initial_dashboard_def)
next
  case (snoc e evs)
  show ?case
  proof (cases "progress (run_events evs) = 100")
    case True
    then show ?thesis using snoc.IH by auto
  next
    case False
    then have "\<exists>cl. e = FetchResolved (Body ''completed'' cl) \<and> processing (run_events evs)"
      using step_progress_100[OF run_inv_reachable, of evs e] snoc.prems
      by (simp add: run_events_snoc)
    then show ?thesis by auto
  qed
qed

text \<open>
  Claim C6. Reported run progress is monotonic and bounded. In every state the component
  can reach, by any sequence of events: a tick of the progress updater while the interval
  is armed yields a percentage that is at least the previous one and at most 97; while a
  run is processing no event lowers the percentage; a transition sets the percentage to
  100 only if it is the arrival of a response whose status is \<open>completed\<close>, and the
  percentage is 100 only if such a response has been received.
\<close>

theorem progress_monotonic_bounded:
  "(stageInterval (run_events evs) \<longrightarrow>
      progress (run_events evs) \<le> progress (step (run_events evs) IntervalFired) \<and>
      progress (step (run_events evs) IntervalFired) \<le> 97) \<and>
   (processing (run_events evs) \<longrightarrow>
      progress (run_events evs) \<le> progress (step (run_events evs) e)) \<and>
   (progress (step (run_events evs) e) = 100 \<and> progress (run_events evs) \<noteq> 100 \<longrightarrow>
      (\<exists>cl. e = FetchResolved (Body ''completed'' cl))) \<and>
   (progress (run_events evs) = 100 \<longrightarrow>
      (\<exists>cl. FetchResolved (Body ''completed'' cl) \<in> set evs))"
proof -
  have inv: "run_inv (run_events evs)" by (rule run_inv_reachable)
  have inv': "run_inv (step (run_events evs) IntervalFired)" by (rule run_inv_step[OF inv])
  have a: "stageInterval (run_events evs) \<longrightarrow>
      progress (run_events evs) \<le> progress (step (run_events evs) IntervalFired) \<and>
      progress (step (run_events evs) IntervalFired) \<le> 97"
    using inv inv' step_progress_processing[OF inv, of IntervalFired]
    by (auto simp: run_inv_def interval_tick_frame)
  have b: "processing (run_events evs) \<longrightarrow>
      progress (run_events evs) \<le> progress (step (run_events evs) e)"
    using step_progress_processing[OF inv] by blast
  have c: "progress (step (run_events evs) e) = 100 \<and> progress (run_events evs) \<noteq> 100 \<longrightarrow>
      (\<exists>cl. e = FetchResolved (Body ''completed'' cl))"
    using step_progress_100[OF inv] by blast
  have d: "progress (run_events evs) = 100 \<longrightarrow>
      (\<exists>cl. FetchResolved (Body ''completed'' cl) \<in> set evs)"
    using progress_100_completed by blast
  show ?thesis using a b c d by blast
qed

theorem progress_monotonic_bounded_witness:
  "stageInterval (run_events [YoutubeUrlInput ''u'', GenerateClick, IntervalFired]) \<and>
   processing (run_events [YoutubeUrlInput ''u'', GenerateClick, IntervalFired]) \<and>
   progress (run_events [YoutubeUrlInput ''u'', GenerateClick, IntervalFired]) = 1 \<and>
   progress (step (run_events [YoutubeUrlInput ''u'', GenerateClick, IntervalFired])
               IntervalFired) = 2 \<and>
   progress (step (run_events [YoutubeUrlInput ''u'', GenerateClick, IntervalFired])
               (FetchResolved (Body ''completed'' []))) = 100 \<and>
   progress (run_events [YoutubeUrlInput ''u'', GenerateClick, IntervalFired,
                         FetchResolved (Body ''completed'' [])]) = 100"
proof -
  let ?evs = "[YoutubeUrlInput ''u'', GenerateClick, IntervalFired]"
  let ?e = "FetchResolved (Body ''completed'' [])"
  have s: "run_events ?evs
      = initial_dashboard\<lparr>youtubeUrl := ''u'', processing := True, progress := 1,
          tickCount := 1, stageInterval := True, timeoutId := True,
          progressStage := ''Downloading video'',
          sent := Some (build_request (initial_dashboard\<lparr>youtubeUrl := ''u''\<rparr>))\<rparr>"
    by (simp add: run_events_def initial_dashboard_def form_shown_def handleGenerate_def
        isReady_def blank_def interval_tick_def progress_next_def stage_index_def Let_def
        PROCESSING_STAGES_def)
  have p1: "progress (step (run_events ?evs) IntervalFired) = 2"
    unfolding s by (simp add: interval_tick_def progress_next_def Let_def)
  have p2: "progress (step (run_events ?evs) ?e) = 100"
    unfolding s by (simp add: on_response_def)
  have p3: "progress (run_events (?evs @ [?e])) = 100"
    using p2 by (simp only: run_events_snoc)
  show ?thesis
    using s p1 p2 p3 progress_monotonic_bounded[of ?evs ?e]
      progress_monotonic_bounded[of "?evs @ [?e]" ?e]
    by simp
qed

subsection \<open>Bounds of the request\<close>

lemma settings_inv_bounds: "settings_inv d \<Longrightarrow> request_in_bounds (clipSettings d)"
  by (auto simp: settings_inv_def request_in_bounds_def clipSettings_def
        CLIP_COUNT_BUTTONS_def ASPECT_RATIOS_def)

lemma settings_inv_form_event:
  assumes "settings_inv d" "offered e"
  shows "settings_inv (form_event e d)"
proof (cases e)
  case (DurationButton b)
  then show ?thesis using assms
    by (cases b) (auto simp: settings_inv_def DURATION_BUTTONS_def)
next
  case GenerateClick
  then show ?thesis using assms settings_inv_bounds[OF assms(1)]
    by (auto simp: settings_inv_def handleGenerate_def build_request_def)
qed (use assms in \<open>auto simp: settings_inv_def\<close>)

lemma settings_inv_step:
  assumes "settings_inv d" "offered e"
  shows "settings_inv (step d e)"
proof (cases e)
  case IntervalFired
  then show ?thesis using assms by (auto simp: settings_inv_def interval_tick_def Let_def)
next
  case (FetchResolved r)
  then show ?thesis using assms
    by (cases r) (auto simp: settings_inv_def on_response_def on_error_def)
next
  case ResetClick
  then show ?thesis using assms by (auto simp: settings_inv_def handleReset_def)
next
  case TimeoutFired
  then show ?thesis using assms by (auto simp: settings_inv_def on_error_def)
next
  case (FetchRejected m)
  then show ?thesis using assms by (auto simp: settings_inv_def on_error_def)
qed (use assms settings_inv_form_event[OF assms] in \<open>auto\<close>)

lemma settings_inv_reachable: "\<forall>e\<in>set evs. offered e \<Longrightarrow> settings_inv (run_events evs)"
proof (induction evs rule: rev_induct)
  case Nil
  show ?case
    by (simp add: run_events_Nil settings_inv_def initial_dashboard_def
        CLIP_COUNT_BUTTONS_def ASPECT_RATIOS_def)
next
  case (snoc e evs)
  then show ?case by (simp add: run_events_snoc settings_inv_step)
qed

text \<open>
  Claim C8. Every GenerationRequest that can be constructed has a requested clip count
  between 1 and 10 inclusive, a requested duration that is either \<open>auto\<close> or a fixed
  number of seconds between 5 and 120 inclusive, and an aspect ratio among 9:16, 1:1, 4:5
  and 16:9. Whatever the user does with the controls of the form, each reporting a value
  it offers: the settings that \<open>handleGenerate\<close> would send are within these bounds, and
  so is every request it has sent; each of the four aspect ratios can be chosen.
\<close>

theorem generation_request_bounds:
  assumes "\<forall>e\<in>set evs. offered e"
  shows "request_in_bounds (clipSettings (run_events evs)) \<and>
         (\<forall>r. sent (run_events evs) = Some r \<longrightarrow> request_in_bounds (req_settings r)) \<and>
         (\<forall>a\<in>set ASPECT_RATIOS. aspectRatio (clipSettings (run_events [AspectButton a])) = a)"
proof -
  have "\<forall>a\<in>set ASPECT_RATIOS. aspectRatio (clipSettings (run_events [AspectButton a])) = a"
    by (simp add: run_events_def initial_dashboard_def form_shown_def clipSettings_def
        ASPECT_RATIOS_def)
  then show ?thesis
    using settings_inv_reachable[OF assms] settings_inv_bounds[of "run_events evs"]
    by (auto simp: settings_inv_def)
qed

theorem generation_request_bounds_witness:
  "list_all offered [ClipsButton 10, DurationButton (Seconds 15), DurationSlider 120,
              AspectButton ''4:5'', YoutubeUrlInput ''https://youtu.be/x'', GenerateClick] \<and>
   sent (run_events [ClipsButton 10, DurationButton (Seconds 15), DurationSlider 120,
              AspectButton ''4:5'', YoutubeUrlInput ''https://youtu.be/x'', GenerateClick])
     = Some \<lparr>req_kind = tab_youtube, req_source = ''https://youtu.be/x'',
             req_settings = \<lparr>duration = Seconds 120, aspectRatio = ''4:5'', numberOfClips = 10,
                generateSubtitles = True, template = ''minimal'', detectionMethod = ''ai''\<rparr>\<rparr> \<and>
   request_in_bounds \<lparr>duration = Seconds 120, aspectRatio = ''4:5'', numberOfClips = 10,
                generateSubtitles = True, template = ''minimal'', detectionMethod = ''ai''\<rparr>"
proof -
  let ?evs = "[ClipsButton 10, DurationButton (Seconds 15), DurationSlider 120,
              AspectButton ''4:5'', YoutubeUrlInput ''https://youtu.be/x'', GenerateClick]"
  have off: "\<forall>e\<in>set ?evs. offered e"
    by (simp add: CLIP_COUNT_BUTTONS_def DURATION_BUTTONS_def ASPECT_RATIOS_def)
  have s: "sent (run_events ?evs)
     = Some \<lparr>req_kind = tab_youtube, req_source = ''https://youtu.be/x'',
             req_settings = \<lparr>duration = Seconds 120, aspectRatio = ''4:5'', numberOfClips = 10,
                generateSubtitles = True, template = ''minimal'', detectionMethod = ''ai''\<rparr>\<rparr>"
    by (simp add: run_events_def initial_dashboard_def form_shown_def handleGenerate_def
        isReady_def blank_def build_request_def clipSettings_def)
  have off': "list_all offered ?evs" using off by (simp only: list_all_iff)
  show ?thesis using off' s generation_request_bounds[OF off] by simp
qed


section \<open>Properties of the Selector\<close>







lemma greedy_length_le:
  "length (greedy_select tol media dur n acc cs) \<le> max n (length acc)"
proof (induction cs arbitrary: acc)
  case Nil
  then show ?case by simp
next
  case (Cons c cs)
  have a: "length (greedy_select tol media dur n acc cs) \<le> max n (length acc)"
    by (rule Cons.IH)
  have b: "length (greedy_select tol media dur n (acc @ [clamp_range dur media c]) cs)
      \<le> max n (length (acc @ [clamp_range dur media c]))"
    by (rule Cons.IH)
  show ?case using a b by auto
qed








































section \<open>Properties of the Orchestrator\<close>

lemma remaining_zero: "remaining p = 0 \<longleftrightarrow> terminal p"
  by (cases p) auto

lemma advance_remaining:
  "\<not> terminal (phase s) \<Longrightarrow> remaining (phase (advance env req s)) < remaining (phase s)"
  by (cases "phase s")
     (auto simp: advance_def fail_def split: option.splits)

lemma step_run_remaining:
  assumes nt: "\<not> terminal (phase s)"
  shows "remaining (phase (step_run env req s)) < remaining (phase s)"
proof -
  have pos: "0 < remaining (phase s)" using nt remaining_zero[of "phase s"] by simp
  show ?thesis
  proof (cases "interruption env (phase s)")
    case None
    then show ?thesis using nt advance_remaining by (simp add: step_run_def)
  next
    case (Some i)
    then show ?thesis using nt pos by (cases i) (simp_all add: step_run_def fail_def)
  qed
qed

lemma run_steps_terminal:
  "remaining (phase s) \<le> k \<Longrightarrow> terminal (phase (run_steps k env req s))"
proof (induction k arbitrary: s)
  case 0
  then show ?case by (simp add: remaining_zero)
next
  case (Suc k)
  show ?case
  proof (cases "terminal (phase s)")
    case True
    then show ?thesis by simp
  next
    case False
    then have "remaining (phase (step_run env req s)) \<le> k"
      using step_run_remaining[OF False, of env req] Suc.prems by simp
    then show ?thesis using False Suc.IH by simp
  qed
qed

lemma run_terminal: "terminal (phase (run env req))"
  unfolding run_def by (rule run_steps_terminal) (simp add: queued_def)

lemma clips_inv_advance: "clips_inv s \<Longrightarrow> clips_inv (advance env req s)"
  by (cases "phase s") (auto simp: clips_inv_def advance_def fail_def split: option.splits)

lemma clips_inv_step:
  assumes "clips_inv s"
  shows "clips_inv (step_run env req s)"
proof (cases "interruption env (phase s)")
  case None
  then show ?thesis using assms clips_inv_advance by (simp add: step_run_def)
next
  case (Some i)
  then show ?thesis using assms by (cases i) (auto simp: step_run_def clips_inv_def fail_def)
qed

lemma clips_inv_run_steps: "clips_inv s \<Longrightarrow> clips_inv (run_steps k env req s)"
  by (induction k arbitrary: s) (auto simp: clips_inv_step)

lemma clips_inv_run: "clips_inv (run env req)"
  unfolding run_def by (rule clips_inv_run_steps) (simp add: clips_inv_def queued_def)

lemma run_steps_terminal_id: "terminal (phase s) \<Longrightarrow> run_steps k env req s = s"
  by (cases k) auto

lemma run_steps_add:
  "run_steps (k + j) env req s = run_steps j env req (run_steps k env req s)"
  by (induction k arbitrary: s) (auto simp: run_steps_terminal_id)

lemma run_split: "run env req = run_steps 2 env req (run_steps 5 env req queued)"
  unfolding run_def using run_steps_add[of 5 2 env req queued] by simp

lemma run_to_rendering:
  assumes "reaches_fan_out env m cs" and "transcribe env m = Some t"
  shows "run_steps 5 env req queued =
        \<lparr>phase = Rendering, scratch = Some m, transcript = t, candidates = cs,
         selected = select (media_duration m) cs (nat (numberOfClips (req_settings req)))
                      (duration (req_settings req)),
         rendered = [], run_clips = []\<rparr>"
  using assms
  by (simp add: eval_nat_numeral reaches_fan_out_def active_phases_def queued_def step_run_def advance_def)

lemma run_fan_out:
  assumes "reaches_fan_out env m cs"
  shows "(survivors env req m cs = [] \<longrightarrow>
            (\<exists>c. phase (run env req) = Failed c) \<and> run_clips (run env req) = []) \<and>
         (survivors env req m cs \<noteq> [] \<longrightarrow>
            phase (run env req) = Completed \<and> run_clips (run env req) = survivors env req m cs)"
proof -
  obtain t where t: "transcribe env m = Some t" using assms by (auto simp: reaches_fan_out_def active_phases_def)
  let ?sel = "select (media_duration m) cs (nat (numberOfClips (req_settings req)))
                (duration (req_settings req))"
  note s5 = run_to_rendering[OF assms t, of req]
  have r0: "render_all env [] = []" by (simp add: render_all_def)
  have p0: "publish_all env (req_settings req) [] = []" by (simp add: publish_all_def)
  have sv: "survivors env req m cs = publish_all env (req_settings req) (render_all env ?sel)"
    by (simp add: survivors_def)
  show ?thesis
  proof (cases "?sel = []")
    case True
    then show ?thesis using assms sv r0 p0 unfolding run_split s5
      by (simp add: eval_nat_numeral reaches_fan_out_def active_phases_def step_run_def advance_def fail_def)
  next
    case sel: False
    show ?thesis
    proof (cases "render_all env ?sel = []")
      case True
      then show ?thesis using assms sv sel p0 unfolding run_split s5
        by (simp add: eval_nat_numeral reaches_fan_out_def active_phases_def step_run_def advance_def fail_def)
    next
      case False
      then show ?thesis using assms sv sel unfolding run_split s5
        by (simp add: eval_nat_numeral reaches_fan_out_def active_phases_def step_run_def advance_def fail_def)
    qed
  qed
qed

lemma run_all_renders_fail:
  assumes "reaches_fan_out env m cs"
    and "select (media_duration m) cs (nat (numberOfClips (req_settings req)))
           (duration (req_settings req)) \<noteq> []"
    and "list_all (\<lambda>x. render_outcome env x = None)
           (select (media_duration m) cs (nat (numberOfClips (req_settings req)))
              (duration (req_settings req)))"
  shows "phase (run env req) = Failed RenderError \<and> run_clips (run env req) = []"
proof -
  obtain t where t: "transcribe env m = Some t" using assms by (auto simp: reaches_fan_out_def active_phases_def)
  let ?sel = "select (media_duration m) cs (nat (numberOfClips (req_settings req)))
                (duration (req_settings req))"
  note s5 = run_to_rendering[OF assms(1) t, of req]
  have "render_all env ?sel = []"
    using assms(3) by (simp add: render_all_def map_filter_def filter_empty_conv list_all_iff)
  then show ?thesis using assms unfolding run_split s5
    by (simp add: eval_nat_numeral reaches_fan_out_def active_phases_def step_run_def advance_def fail_def)
qed

text \<open>
  Claim C4. Every run terminates in exactly one of two terminal statuses: Completed with
  at least one surviving clip, or Failed with an error category and no clip. When the
  stages before the fan-out succeed and nothing interrupts the run, a run whose per-clip
  render and publish failures leave zero surviving clips is Failed, never Completed with
  an empty clip list (with RenderError when every selected moment fails to render), while a run in which at
  least one clip survives is Completed with exactly the surviving clips.
\<close>

theorem run_terminal_status:
  "((phase (run env req) = Completed \<and> run_clips (run env req) \<noteq> []) \<or>
    (\<exists>c. phase (run env req) = Failed c \<and> run_clips (run env req) = [])) \<and>
   (reaches_fan_out env m cs \<longrightarrow>
      (survivors env req m cs = [] \<longrightarrow>
         (\<exists>c. phase (run env req) = Failed c) \<and> run_clips (run env req) = []) \<and>
      (survivors env req m cs \<noteq> [] \<longrightarrow>
         phase (run env req) = Completed \<and> run_clips (run env req) = survivors env req m cs)) \<and>
   (reaches_fan_out env m cs \<and>
    select (media_duration m) cs (nat (numberOfClips (req_settings req)))
      (duration (req_settings req)) \<noteq> [] \<and>
    list_all (\<lambda>x. render_outcome env x = None)
      (select (media_duration m) cs (nat (numberOfClips (req_settings req)))
         (duration (req_settings req))) \<longrightarrow>
      phase (run env req) = Failed RenderError \<and> run_clips (run env req) = [])"
proof -
  have t: "terminal (phase (run env req))" by (rule run_terminal)
  have i: "clips_inv (run env req)" by (rule clips_inv_run)
  have a: "(phase (run env req) = Completed \<and> run_clips (run env req) \<noteq> []) \<or>
    (\<exists>c. phase (run env req) = Failed c \<and> run_clips (run env req) = [])"
    using t i by (cases "phase (run env req)") (auto simp: clips_inv_def)
  show ?thesis using a run_fan_out[of env m cs req] run_all_renders_fail[of env m cs req]
    by blast
qed

theorem run_terminal_status_witness:
  "reaches_fan_out (sample_env 200) sample_media sample_candidates \<and>
   length (survivors (sample_env 200) sample_request sample_media sample_candidates) = 2 \<and>
   phase (run (sample_env 200) sample_request) = Completed \<and>
   length (run_clips (run (sample_env 200) sample_request)) = 2 \<and>
   reaches_fan_out (sample_env 0) sample_media sample_candidates \<and>
   survivors (sample_env 0) sample_request sample_media sample_candidates = [] \<and>
   phase (run (sample_env 0) sample_request) = Failed RenderError \<and>
   run_clips (run (sample_env 0) sample_request) = []"
proof -
  have sel: "select 600 sample_candidates 3 Auto
      = [moment 0 60 (9/10), moment 120 180 (7/10), moment 300 360 (5/10)]"
    by (simp add: select_def select_with_def sample_candidates_def moment_def
        ranks_before_def overlaps_def clamp_range_def)
  have r1: "reaches_fan_out (sample_env 200) sample_media sample_candidates"
    by (simp add: reaches_fan_out_def active_phases_def sample_env_def transcribe_def sample_media_def)
  have r2: "reaches_fan_out (sample_env 0) sample_media sample_candidates"
    by (simp add: reaches_fan_out_def active_phases_def sample_env_def transcribe_def sample_media_def)
  have pub: "\<And>l a. publish (sample_env l) a
      = Some \<lparr>url = ''https://cdn/clip.mp4'', thumbnailUrl = ''https://cdn/clip.jpg''\<rparr>"
    by (simp add: publish_def sample_env_def eval_nat_numeral)
  have sv1: "length (survivors (sample_env 200) sample_request sample_media sample_candidates) = 2"
    using sel pub[of 200]
    by (simp add: survivors_def sample_request_def sample_media_def render_all_def
        publish_all_def map_filter_def sample_env_def moment_def)
  have sv2: "survivors (sample_env 0) sample_request sample_media sample_candidates = []"
    using sel
    by (simp add: survivors_def sample_request_def sample_media_def render_all_def
        publish_all_def map_filter_def sample_env_def moment_def)
  have ne: "survivors (sample_env 200) sample_request sample_media sample_candidates \<noteq> []"
    using sv1 by auto
  note th1 = run_terminal_status[of "sample_env 200" sample_request sample_media sample_candidates]
  note th2 = run_terminal_status[of "sample_env 0" sample_request sample_media sample_candidates]
  have c1: "phase (run (sample_env 200) sample_request) = Completed \<and>
      run_clips (run (sample_env 200) sample_request)
        = survivors (sample_env 200) sample_request sample_media sample_candidates"
    using th1 r1 ne by blast
  have sel': "select (media_duration sample_media) sample_candidates
        (nat (numberOfClips (req_settings sample_request)))
        (duration (req_settings sample_request))
      = [moment 0 60 (9/10), moment 120 180 (7/10), moment 300 360 (5/10)]"
    using sel by (simp add: sample_media_def sample_request_def)
  have nr: "list_all (\<lambda>x. render_outcome (sample_env 0) x = None)
      (select (media_duration sample_media) sample_candidates
        (nat (numberOfClips (req_settings sample_request)))
        (duration (req_settings sample_request)))"
    unfolding sel' by (simp add: sample_env_def moment_def)
  have ns: "select (media_duration sample_media) sample_candidates
        (nat (numberOfClips (req_settings sample_request)))
        (duration (req_settings sample_request)) \<noteq> []"
    unfolding sel' by simp
  have c2: "phase (run (sample_env 0) sample_request) = Failed RenderError \<and>
      run_clips (run (sample_env 0) sample_request) = []"
    using th2 r2 ns nr by blast
  show ?thesis using r1 sv1 c1 r2 sv2 c2 by simp
qed


section \<open>The timeout ceiling\<close>

subsection \<open>The run\<close>







subsection \<open>The generate call\<close>













section \<open>Properties of the Detector\<close>



lemma usable_valid: "list_all (valid_candidate media) (usable media cs)"
  by (simp add: usable_def list_all_iff)

lemma usable_keeps: "c \<in> set cs \<Longrightarrow> valid_candidate media c \<Longrightarrow> c \<in> set (usable media cs)"
  by (simp add: usable_def)

lemma usable_drops: "c \<in> set (usable media cs) \<Longrightarrow> c \<in> set cs \<and> valid_candidate media c"
  by (simp add: usable_def)

lemma detect_reachable: "detect cfg (Returned cs) media n dur \<noteq> None"
  by (simp add: detect_def)




























section \<open>Properties of the aspect-ratio transform\<close>



lemma centred: "(h::rat) \<le> X \<Longrightarrow> 0 \<le> (X - h) / 2 \<and> (X - h) / 2 + h \<le> X"
  by (simp add: field_simps)

lemma letterbox_uncropped:
  assumes "0 < a" "0 < b" "0 < frame_w f" "0 < frame_h f"
  shows "uncropped f (letterbox f (a, b)) \<and> has_ratio (letterbox f (a, b)) (a, b) \<and>
         padded_one_way f (letterbox f (a, b))"
proof (cases "frame_h f * a \<le> frame_w f * b")
  case True
  have "frame_h f \<le> frame_w f * b / a"
    using True assms(1) by (simp add: pos_le_divide_eq)
  then have c: "0 \<le> (frame_w f * b / a - frame_h f) / 2 \<and>
      (frame_w f * b / a - frame_h f) / 2 + frame_h f \<le> frame_w f * b / a"
    by (rule centred)
  have r: "frame_w f * b = frame_w f * b / a * a" using assms(1) by simp
  show ?thesis using True c r
    by (simp add: letterbox_def uncropped_def has_ratio_def padded_one_way_def)
next
  case False
  then have "frame_w f * b < frame_h f * a" by simp
  then have "frame_w f \<le> frame_h f * a / b"
    using assms(2) by (simp add: pos_le_divide_eq)
  then have c: "0 \<le> (frame_h f * a / b - frame_w f) / 2 \<and>
      (frame_h f * a / b - frame_w f) / 2 + frame_w f \<le> frame_h f * a / b"
    by (rule centred)
  have r: "frame_h f * a / b * b = frame_h f * a" using assms(2) by simp
  show ?thesis using False c r
    by (simp add: letterbox_def uncropped_def has_ratio_def padded_one_way_def)
qed

lemma ratio_of_enum:
  "ar \<in> set ASPECT_RATIOS \<Longrightarrow> \<exists>a b. ratio_of ar = Some (a, b) \<and> 0 < a \<and> 0 < b"
  by (auto simp: ASPECT_RATIOS_def ratio_of_def)

text \<open>
  Claim C5. For every rendered clip and every requested aspect ratio, the Clip Renderer's
  aspect-ratio transform is letterbox/pad only: the source frame content is never cropped.
  For every frame of positive width and height and each of the ratios 9:16, 1:1, 4:5 and
  16:9, the transform yields a canvas of the requested ratio on which the whole source
  frame lies, padded in one direction at most.
\<close>

theorem letterbox_never_crops:
  assumes "ar \<in> set ASPECT_RATIOS" "0 < frame_w f" "0 < frame_h f"
  shows "\<exists>p r. ratio_of ar = Some r \<and> aspect_transform f ar = Some p \<and>
           uncropped f p \<and> has_ratio p r \<and> padded_one_way f p"
proof -
  obtain a b where r: "ratio_of ar = Some (a, b)" "0 < a" "0 < b"
    using ratio_of_enum[OF assms(1)] by blast
  have "aspect_transform f ar = Some (letterbox f (a, b))"
    using r by (simp add: aspect_transform_def)
  then show ?thesis using r letterbox_uncropped[OF r(2,3) assms(2,3)] by blast
qed

theorem letterbox_never_crops_witness:
  "''9:16'' \<in> set ASPECT_RATIOS \<and>
   aspect_transform \<lparr>frame_w = 1920, frame_h = 1080\<rparr> ''9:16''
     = Some \<lparr>canvas_w = 1920, canvas_h = 10240 / 3, offset_x = 0, offset_y = 3500 / 3\<rparr> \<and>
   uncropped \<lparr>frame_w = 1920, frame_h = 1080\<rparr>
     \<lparr>canvas_w = 1920, canvas_h = 10240 / 3, offset_x = 0, offset_y = 3500 / 3\<rparr> \<and>
   has_ratio \<lparr>canvas_w = 1920, canvas_h = 10240 / 3, offset_x = 0, offset_y = 3500 / 3\<rparr> (9, 16)"
proof -
  let ?f = "\<lparr>frame_w = 1920, frame_h = 1080\<rparr>"
  let ?p = "\<lparr>canvas_w = 1920, canvas_h = 10240 / 3, offset_x = 0, offset_y = 3500 / 3\<rparr>"
  have h1: "''9:16'' \<in> set ASPECT_RATIOS" by (simp add: ASPECT_RATIOS_def)
  have h2: "0 < frame_w ?f" "0 < frame_h ?f" by simp_all
  have v: "aspect_transform ?f ''9:16'' = Some ?p"
    by (simp add: aspect_transform_def ratio_of_def letterbox_def)
  have r: "ratio_of ''9:16'' = Some (9, 16)" by (simp add: ratio_of_def)
  obtain p q where pq: "ratio_of ''9:16'' = Some q" "aspect_transform ?f ''9:16'' = Some p"
    "uncropped ?f p" "has_ratio p q"
    using letterbox_never_crops[OF h1 h2] by blast
  have "p = ?p" using pq(2) v by simp
  moreover have "q = (9, 16)" using pq(1) r by simp
  ultimately have "uncropped ?f ?p" "has_ratio ?p (9, 16)" using pq(3,4) by simp_all
  then show ?thesis using h1 v by blast
qed

end
